theory Spec2Isabelle
  imports Complex_Main
begin

section \<open>Data of the coupling\<close>

text \<open>
  Embedding of \<^verbatim>\<open>Source/alpine3d/alpine3d/SnowpackInterface.cc\<close>: the master side of the
  Alpine3D/Snowpack coupling. It owns the forcing grids of the whole domain, knows which
  producers have delivered their fields for the next time step, runs the step on its
  workers once everything is there, and answers grid queries.

  A \<^verbatim>\<open>mio::Date\<close> is its Julian day number, a \<^verbatim>\<open>double\<close> a real number: the file
  only compares dates, adds the time step to a date and copies cell values. Two dates
  that the comparison of the library takes for equal are the same date here.
\<close>

type_synonym Date = real

text \<open>
  Of a \<^verbatim>\<open>mio::Coords\<close> the model keeps the position in its projection and the grid
  indices \<^verbatim>\<open>getGridI()\<close>, \<^verbatim>\<open>getGridJ()\<close>, which are of type \<^verbatim>\<open>int\<close>: whole numbers, those
  of the platform among them.
\<close>

record Coords =
  coordsystem :: string
  easting :: real
  northing :: real
  getGridI :: int
  getGridJ :: int

text \<open>
  \<^verbatim>\<open>mio::Array2D<double>\<close>: \<open>nx\<close> columns, \<open>ny\<close> rows, the cell \<open>(x, y)\<close> at position
  \<open>x + y * nx\<close> of \<open>vecData\<close>. \<^verbatim>\<open>mio::Grid2DObject\<close> adds the geolocation.
\<close>

record Array2D =
  nx :: nat
  ny :: nat
  vecData :: "real list"

record Grid2DObject =
  grid2D :: Array2D
  cellsize :: real
  llcorner :: Coords

text \<open>
  \<^verbatim>\<open>SnGrids::Parameters\<close>. The enumeration is declared in another file of Alpine3D;
  the constructors are the members this file names, \<open>OtherParameter\<close> stands for every
  other member.
\<close>

datatype SnGrids =
  TA | RH | VW | PSUM | PSUM_PH | ISWR | ILWR
| HS | TSS | SP | RG | N3 | RB | TOP_ALB | GLACIER
| OtherParameter nat

text \<open>
  The exceptions the file throws, and how a call ends: it returns, it throws, or it
  reaches \<^verbatim>\<open>std::abort()\<close>. A call that throws or aborts still has changed the object
  up to that point, so every operation returns the outcome together with the state.
\<close>

datatype exception =
  InvalidArgumentException string
| IndexOutOfBoundsException nat nat nat nat
| NoDataException string
| InvalidNameException string
| AccessException string

datatype outcome = Returned | Thrown exception | Aborted

text \<open>
  What the file prints and what it hands to the writers, to the other processes and to
  the attached modules, in the order of the calls. \<open>'p\<close> is the data of one point of
  interest (its \<^verbatim>\<open>SnowStation\<close>, \<^verbatim>\<open>CurrentMeteo\<close> and \<^verbatim>\<open>SurfaceFluxes\<close>).
\<close>

datatype 'p event =
  PoiDuplicate nat nat
    \<comment> \<open>\<^verbatim>\<open>[W] POI #ii ... is a duplicate of POI #orig_idx\<close>\<close>
| TimingMessage string Date Date
    \<comment> \<open>\<^verbatim>\<open>Providing ... at <timestamp> for Snowpack timestamp <nextStepTimestamp>\<close>\<close>
| UpdatingStateVariables
| NotAvailable SnGrids
    \<comment> \<open>\<^verbatim>\<open>[W] Requested ... but this was not available in the workers\<close>\<close>
| TimerRestart
| TimerStop
| ModelException string
    \<comment> \<open>\<^verbatim>\<open>cout << e.what()\<close> for the exception of a worker\<close>
| SimulationsDone Date
| SMET_line string 'p
| TimeSeries 'p
| Profile Date 'p
| SnowCover Date 'p
| Send "'p list" nat
| SnowSurfaceData Grid2DObject Grid2DObject Grid2DObject Grid2DObject Grid2DObject
| Albedo Grid2DObject
| Write2DGrid Grid2DObject nat Date
| Write2DGridNamed Grid2DObject string
| RunoffOutput Date Grid2DObject Grid2DObject

text \<open>
  The collaborators, whose code lies outside this file, are parameters of the model:
  \<^verbatim>\<open>MPIControl\<close> (\<open>master\<close>, \<open>mpi_size\<close>, \<open>master_rank\<close>, the collective
  \<open>allreduce_sum\<close>, and \<open>receive\<close> for what another process has sent), the operations of
  a \<^verbatim>\<open>SnowpackInterfaceWorker\<close> on its state \<open>'w\<close> (\<open>runModel\<close> returns the worker
  after the step and \<open>what()\<close> of the exception it threw, if any), the sub-grid
  constructor and the product of \<^verbatim>\<open>Grid2DObject\<close>, \<^verbatim>\<open>Glaciers::correctTemperatures\<close>
  (applied to the glacier map the \<^verbatim>\<open>Glaciers\<close> object holds), \<^verbatim>\<open>booleanTime\<close>,
  \<^verbatim>\<open>dt_main\<close>, the file system (\<^verbatim>\<open>FileUtils::validFileAndPath\<close>, and whether opening
  a file fails), and the name tables. A call to a collaborator returns; the exceptions of
  the model are the one of \<^verbatim>\<open>runModel\<close>, which \<^verbatim>\<open>calcNextStep\<close> catches, and those that
  this file throws itself.
\<close>

record ('w, 'p) env =
  master :: bool
  mpi_size :: nat
  master_rank :: nat
  allreduce_sum :: "Grid2DObject \<Rightarrow> Grid2DObject"
  receive :: "nat \<Rightarrow> 'p list"
  worker_getGrid :: "'w \<Rightarrow> SnGrids \<Rightarrow> Grid2DObject"
  worker_runModel :: "'w \<Rightarrow> Date \<Rightarrow> Grid2DObject list \<Rightarrow> real \<Rightarrow> 'w \<times> string option"
  worker_getOutputSpecialPoints :: "'w \<Rightarrow> 'p list"
  worker_clearSpecialPointsData :: "'w \<Rightarrow> 'w"
  subgrid :: "Grid2DObject \<Rightarrow> nat \<Rightarrow> nat \<Rightarrow> nat \<Rightarrow> nat \<Rightarrow> Grid2DObject"
  grid_times :: "Grid2DObject \<Rightarrow> Grid2DObject \<Rightarrow> Grid2DObject"
  correctTemperatures ::
    "Grid2DObject \<Rightarrow> Grid2DObject \<Rightarrow> Grid2DObject \<Rightarrow> Grid2DObject \<Rightarrow> Grid2DObject"
  booleanTime :: "real \<Rightarrow> real \<Rightarrow> real \<Rightarrow> real \<Rightarrow> bool"
  dt_main :: real
  validFileAndPath :: "string \<Rightarrow> bool"
  open_fails :: "string \<Rightarrow> bool"
  stationName :: "'p \<Rightarrow> string"
  SnGrids_getParameterIndex :: "string \<Rightarrow> SnGrids"
  MeteoGrids_getParameterIndex :: "string \<Rightarrow> nat option"
  date_NUM :: "Date \<Rightarrow> string"

text \<open>
  The members of \<^verbatim>\<open>SnowpackInterface\<close> that the embedded functions read or write, under
  their names. \<open>drift\<close>, \<open>eb\<close>, \<open>da\<close> and \<open>runoff\<close> say whether the pointer to the module
  is set; \<open>glaciers\<close> is the glacier map held by the \<^verbatim>\<open>Glaciers\<close> object; every slot of
  \<open>workers\<close> holds a constructed worker, and the constructor gives \<open>workers\<close>,
  \<open>worker_startx\<close> and \<open>worker_deltax\<close> the same length. \<open>trace\<close> is not a member: it
  collects the events. The \<^verbatim>\<open>Timer\<close> measures wall-clock time; only its calls are
  recorded.
\<close>

record ('w, 'p) SnowpackInterface =
  dimx :: nat
  dimy :: nat
  mns :: Grid2DObject
  shortwave :: Grid2DObject
  longwave :: Grid2DObject
  diffuse :: Grid2DObject
  psum :: Grid2DObject
  psum_ph :: Grid2DObject
  vw :: Grid2DObject
  rh :: Grid2DObject
  ta :: Grid2DObject
  solarElevation :: real
  output_grids :: "string list"
  workers :: "'w list"
  worker_startx :: "nat list"
  worker_deltax :: "nat list"
  nextStepTimestamp :: Date
  timeStep :: real
  drift :: bool
  eb :: bool
  da :: bool
  runoff :: bool
  dataMeteo2D :: bool
  dataDa :: bool
  dataSnowDrift :: bool
  dataRadiation :: bool
  mask_glaciers :: bool
  mask_dynamic :: bool
  maskGlacier :: Grid2DObject
  glacier_katabatic_flow :: bool
  glaciers :: Grid2DObject
  dem :: Grid2DObject
  do_io_locally :: bool
  grids_start :: real
  grids_days_between :: real
  ts_start :: real
  ts_days_between :: real
  prof_days_between :: real
  grids_write :: bool
  ts_write :: bool
  prof_write :: bool
  snow_write :: bool
  snow_poi_written :: bool
  meteo_outpath :: string
  pts :: "(nat \<times> nat) list"
  trace :: "'p event list"

definition emit :: "'p event list \<Rightarrow> ('w, 'p) SnowpackInterface \<Rightarrow> ('w, 'p) SnowpackInterface" where
  "emit es s = s\<lparr>trace := trace s @ es\<rparr>"

section \<open>Registration of the points of interest\<close>

text \<open>
  \<^verbatim>\<open>prepare_pts\<close> stores the \<^verbatim>\<open>int\<close> indices of a point in variables of type \<^verbatim>\<open>size_t\<close>,
  and \<^verbatim>\<open>std::sort\<close> hands the pairs of \<^verbatim>\<open>size_t\<close> to \<^verbatim>\<open>pair_comparator\<close>, whose parameters
  are pairs of \<^verbatim>\<open>double\<close>. \<open>size_t_of_int\<close> is the first conversion, for a \<^verbatim>\<open>size_t\<close> of
  64 bits: a negative index wraps around. \<open>double_of_size_t\<close> is the second: the nearest
  number with a significand of 53 bits, a tie going to the even significand.
\<close>

definition size_t_of_int :: "int \<Rightarrow> nat" where
  "size_t_of_int i = nat (i mod 2 ^ 64)"

fun significant_bits :: "nat \<Rightarrow> nat" where
  "significant_bits n = (if n = 0 then 0 else Suc (significant_bits (n div 2)))"

definition double_of_size_t :: "nat \<Rightarrow> real" where
  "double_of_size_t n =
     (let k = significant_bits n - 53; q = n div 2 ^ k; r = n mod 2 ^ k
      in if 2 * r < 2 ^ k \<or> (2 * r = 2 ^ k \<and> even q) then real (q * 2 ^ k)
         else real ((q + 1) * 2 ^ k))"

definition pair_of_doubles :: "nat \<times> nat \<Rightarrow> real \<times> real" where
  "pair_of_doubles p = (double_of_size_t (fst p), double_of_size_t (snd p))"

text \<open>\<^verbatim>\<open>pair_comparator\<close>: increasing \<open>y\<close> (the second component), then increasing \<open>x\<close>.\<close>

definition pair_comparator :: "real \<times> real \<Rightarrow> real \<times> real \<Rightarrow> bool" where
  "pair_comparator l r = (if snd l = snd r then fst l < fst r else snd l < snd r)"

text \<open>
  \<^verbatim>\<open>std::find(pts.begin(), pts.end(), tmp)\<close>: the position of the first element equal to
  \<open>tmp\<close>, or \<open>None\<close> for \<^verbatim>\<open>pts.end()\<close>.
\<close>

fun find_pos :: "'a list \<Rightarrow> 'a \<Rightarrow> nat option" where
  "find_pos [] t = None"
| "find_pos (p # ps) t =
     (if p = t then Some 0 else map_option Suc (find_pos ps t))"

text \<open>
  \<^verbatim>\<open>std::sort(first, last, comp)\<close>. The algorithm is the one of the standard library,
  whatever it is, and it leaves the order of elements that \<open>comp\<close> takes for equal
  open; the model inserts one element after the other. Where the indices of the
  points convert to \<^verbatim>\<open>double\<close> without rounding, \<open>comp\<close> is a strict total order on the
  vector without repetition that \<^verbatim>\<open>prepare_pts\<close> sorts, and lemma \<open>sort_cmp_unique\<close> below
  shows that every arrangement of the same elements that is ascending for it is the
  one computed here.
\<close>

fun insert_cmp :: "('a \<Rightarrow> 'a \<Rightarrow> bool) \<Rightarrow> 'a \<Rightarrow> 'a list \<Rightarrow> 'a list" where
  "insert_cmp cmp x [] = [x]"
| "insert_cmp cmp x (y # ys) =
     (if cmp x y then x # y # ys else y # insert_cmp cmp x ys)"

fun sort_cmp :: "('a \<Rightarrow> 'a \<Rightarrow> bool) \<Rightarrow> 'a list \<Rightarrow> 'a list" where
  "sort_cmp cmp [] = []"
| "sort_cmp cmp (x # xs) = insert_cmp cmp x (sort_cmp cmp xs)"

text \<open>
  The loop of \<^verbatim>\<open>prepare_pts\<close> over \<open>vec_pts[ii]\<close>, with the vectors \<open>pts\<close> and
  \<open>vec_idx\<close> it grows and the warnings printed so far. \<open>is_master\<close> is
  \<^verbatim>\<open>MPIControl::instance().master()\<close>.
\<close>

fun prepare_loop ::
  "bool \<Rightarrow> Coords list \<Rightarrow> nat \<Rightarrow> (nat \<times> nat) list \<Rightarrow> nat list \<Rightarrow> 'p event list
    \<Rightarrow> (nat \<times> nat) list \<times> nat list \<times> 'p event list" where
  "prepare_loop is_master [] ii ps vec_idx out = (ps, vec_idx, out)"
| "prepare_loop is_master (c # cs) ii ps vec_idx out =
     (let ix = size_t_of_int (getGridI c);
          iy = size_t_of_int (getGridJ c);
          tmp = (ix, iy)
      in case find_pos ps tmp of
        Some k \<Rightarrow>
          prepare_loop is_master cs (Suc ii) ps vec_idx
            (if is_master then out @ [PoiDuplicate ii (vec_idx ! k)] else out)
      | None \<Rightarrow>
          prepare_loop is_master cs (Suc ii) (ps @ [tmp]) (vec_idx @ [ii]) out)"

definition prepare_pts :: "bool \<Rightarrow> Coords list \<Rightarrow> (nat \<times> nat) list \<times> 'p event list" where
  "prepare_pts is_master vec_pts =
     (case prepare_loop is_master vec_pts 0 [] [] [] of
        (ps, vec_idx, out) \<Rightarrow>
          (sort_cmp (\<lambda>l r. pair_comparator (pair_of_doubles l) (pair_of_doubles r)) ps, out))"

section \<open>Grids\<close>

text \<open>
  The grid classes \<^verbatim>\<open>Array2D\<close> and \<^verbatim>\<open>Grid2DObject\<close> belong to the MeteoIO library, which
  lies outside this file. The operations on them that decide a property below are
  written out here; the range checks the library may perform are not part of the model,
  the theorems that depend on a block lying inside its grid say so.
\<close>

definition get_cell :: "Array2D \<Rightarrow> nat \<Rightarrow> nat \<Rightarrow> real" where
  "get_cell a x y = vecData a ! (x + y * nx a)"

definition set_cell :: "Array2D \<Rightarrow> nat \<Rightarrow> nat \<Rightarrow> real \<Rightarrow> Array2D" where
  "set_cell a x y v = a\<lparr>vecData := (vecData a)[x + y * nx a := v]\<rparr>"

text \<open>
  Modelled from the spec: \<^verbatim>\<open>Grid2DObject::empty()\<close> and \<^verbatim>\<open>Grid2DObject::clear()\<close>, for
  the "empty/absent result" of a worker and the "empty grid returned" by the query: a
  grid without columns and rows.
\<close>

definition empty_grid :: "Grid2DObject \<Rightarrow> bool" where
  "empty_grid g = (nx (grid2D g) = 0 \<and> ny (grid2D g) = 0)"

definition clear_grid :: "Grid2DObject \<Rightarrow> Grid2DObject" where
  "clear_grid g = g\<lparr>grid2D := \<lparr>nx = 0, ny = 0, vecData = []\<rparr>\<rparr>"

text \<open>
  Modelled from the spec: the constructor \<^verbatim>\<open>Grid2DObject(dem, init)\<close>, the
  "zero-initialized full-domain grid": the geolocation and the dimensions of \<open>dem\<close>,
  every cell \<open>init\<close>.
\<close>

definition Grid2DObject_init :: "Grid2DObject \<Rightarrow> real \<Rightarrow> Grid2DObject" where
  "Grid2DObject_init g init =
     g\<lparr>grid2D := \<lparr>nx = nx (grid2D g), ny = ny (grid2D g),
                    vecData = replicate (nx (grid2D g) * ny (grid2D g)) init\<rparr>\<rparr>"

text \<open>
  Modelled from the spec: \<^verbatim>\<open>Array2D::fill(src, i_nx, i_ny, i_ncols, i_nrows)\<close>, "splice each
  slice's sub-grid into [the] full-domain grid at the worker's column offset": the
  cell \<open>(ii, jj)\<close> of the block of \<open>i_ncols\<close> columns and \<open>i_nrows\<close> rows that starts at
  \<open>(i_nx, i_ny)\<close> receives the cell \<open>(ii - i_nx, jj - i_ny)\<close> of \<open>src\<close>.
\<close>

definition fill_row :: "Array2D \<Rightarrow> nat \<Rightarrow> nat \<Rightarrow> nat \<Rightarrow> nat \<Rightarrow> Array2D \<Rightarrow> Array2D" where
  "fill_row src i_nx i_ny i_ncols jj a =
     foldl (\<lambda>a ii. set_cell a ii jj (get_cell src (ii - i_nx) (jj - i_ny)))
       a [i_nx ..< i_nx + i_ncols]"

definition fill :: "Array2D \<Rightarrow> Array2D \<Rightarrow> nat \<Rightarrow> nat \<Rightarrow> nat \<Rightarrow> nat \<Rightarrow> Array2D" where
  "fill a src i_nx i_ny i_ncols i_nrows =
     foldl (\<lambda>a jj. fill_row src i_nx i_ny i_ncols jj a) a [i_ny ..< i_ny + i_nrows]"

text \<open>
  Modelled from the spec: \<^verbatim>\<open>Grid2DObject::isSameGeolocalization\<close>, "identical
  geolocation and dimensions", the geolocation being "origin, cell size, projection".
\<close>

definition isSameGeolocalization :: "Grid2DObject \<Rightarrow> Grid2DObject \<Rightarrow> bool" where
  "isSameGeolocalization g target =
     (nx (grid2D g) = nx (grid2D target) \<and> ny (grid2D g) = ny (grid2D target)
      \<and> easting (llcorner g) = easting (llcorner target)
      \<and> northing (llcorner g) = northing (llcorner target)
      \<and> coordsystem (llcorner g) = coordsystem (llcorner target)
      \<and> cellsize g = cellsize target)"

section \<open>Grid queries\<close>

text \<open>
  One iteration of the loop of \<^verbatim>\<open>getGrid\<close> over the workers: the grid of worker \<open>ii\<close>
  goes into \<open>o_grid2D\<close> at the columns of the worker, an empty one is counted. The
  source runs the iterations in parallel; the model runs them in the order of \<open>ii\<close>.
\<close>

definition getGrid_iter ::
  "('w, 'p) env \<Rightarrow> ('w, 'p) SnowpackInterface \<Rightarrow> SnGrids \<Rightarrow> Grid2DObject \<times> nat \<Rightarrow> nat
    \<Rightarrow> Grid2DObject \<times> nat" where
  "getGrid_iter e s param acc ii =
     (case acc of (o_grid2D, errCount) \<Rightarrow>
        let tmp = worker_getGrid e (workers s ! ii) param in
        if \<not> empty_grid tmp then
          (o_grid2D\<lparr>grid2D :=
             fill (grid2D o_grid2D) (grid2D tmp) (worker_startx s ! ii) 0
               (worker_deltax s ! ii) (dimy s)\<rparr>, errCount)
        else (o_grid2D, errCount + 1))"

text \<open>The part of \<^verbatim>\<open>getGrid\<close> after the \<^verbatim>\<open>switch\<close>.\<close>

definition getGrid_workers ::
  "('w, 'p) env \<Rightarrow> ('w, 'p) SnowpackInterface \<Rightarrow> SnGrids
    \<Rightarrow> Grid2DObject \<times> ('w, 'p) SnowpackInterface" where
  "getGrid_workers e s param =
     (case foldl (getGrid_iter e s param) (Grid2DObject_init (dem s) 0, 0)
             [0 ..< length (workers s)] of
        (o_grid2D, errCount) \<Rightarrow>
          let reduced = allreduce_sum e o_grid2D in
          if errCount > 0 then (clear_grid reduced, emit [NotAvailable param] s)
          else (reduced, s))"

fun getGrid ::
  "('w, 'p) env \<Rightarrow> ('w, 'p) SnowpackInterface \<Rightarrow> SnGrids
    \<Rightarrow> Grid2DObject \<times> ('w, 'p) SnowpackInterface" where
  "getGrid e s TA = (ta s, s)"
| "getGrid e s RH = (rh s, s)"
| "getGrid e s VW = (vw s, s)"
| "getGrid e s PSUM = (psum s, s)"
| "getGrid e s PSUM_PH = (psum_ph s, s)"
| "getGrid e s ISWR = (shortwave s, s)"
| "getGrid e s ILWR = (longwave s, s)"
| "getGrid e s param = getGrid_workers e s param"

section \<open>Output of the points of interest\<close>

text \<open>
  \<^verbatim>\<open>write_SMET\<close> appends the line of one point to its file; it throws when the name
  is not valid or the file cannot be opened.
\<close>

definition write_SMET ::
  "('w, 'p) env \<Rightarrow> ('w, 'p) SnowpackInterface \<Rightarrow> 'p
    \<Rightarrow> outcome \<times> ('w, 'p) SnowpackInterface" where
  "write_SMET e s p =
     (let filename = meteo_outpath s @ ''/'' @ stationName e p @ ''.smet'' in
      if \<not> validFileAndPath e filename then (Thrown (InvalidNameException filename), s)
      else if open_fails e filename then (Thrown (AccessException filename), s)
      else (Returned, emit [SMET_line filename p] s))"

text \<open>
  The loop of \<^verbatim>\<open>writeOutputSpecialPoints\<close>; the three vectors of the source hold the
  parts of the same points and are one list here.
\<close>

fun writeOutputSpecialPoints_loop ::
  "('w, 'p) env \<Rightarrow> bool \<Rightarrow> bool \<Rightarrow> Date \<Rightarrow> 'p list \<Rightarrow> ('w, 'p) SnowpackInterface
    \<Rightarrow> outcome \<times> ('w, 'p) SnowpackInterface" where
  "writeOutputSpecialPoints_loop e TS PR date [] s = (Returned, s)"
| "writeOutputSpecialPoints_loop e TS PR date (p # ps) s =
     (case write_SMET e s p of
        (Thrown ex, s1) \<Rightarrow> (Thrown ex, s1)
      | (_, s1) \<Rightarrow>
          let s2 = (if TS then emit [TimeSeries p] s1 else s1);
              s3 = (if PR then emit [Profile date p] s2 else s2)
          in writeOutputSpecialPoints_loop e TS PR date ps s3)"

definition writeOutputSpecialPoints ::
  "('w, 'p) env \<Rightarrow> ('w, 'p) SnowpackInterface \<Rightarrow> Date \<Rightarrow> 'p list
    \<Rightarrow> outcome \<times> ('w, 'p) SnowpackInterface" where
  "writeOutputSpecialPoints e s date pixels =
     (let TS = (ts_write s \<and> booleanTime e date (ts_days_between s) (ts_start s) (dt_main e / 60));
          PR = (prof_write s
                \<and> booleanTime e date (prof_days_between s) (prof_days_between s) (dt_main e / 60))
      in writeOutputSpecialPoints_loop e TS PR date pixels s)"

definition writeSnowCover ::
  "('w, 'p) SnowpackInterface \<Rightarrow> Date \<Rightarrow> 'p list \<Rightarrow> ('w, 'p) SnowpackInterface" where
  "writeSnowCover s date snow_station = emit (map (SnowCover date) snow_station) s"

text \<open>The loop over the workers that ends \<^verbatim>\<open>write_special_points\<close>.\<close>

definition clearSpecialPointsData ::
  "('w, 'p) env \<Rightarrow> ('w, 'p) SnowpackInterface \<Rightarrow> ('w, 'p) SnowpackInterface" where
  "clearSpecialPointsData e s = s\<lparr>workers := map (worker_clearSpecialPointsData e) (workers s)\<rparr>"

text \<open>
  On the master, without local output: the loop over the other processes, each of which
  has sent the data of its points.
\<close>

fun write_received ::
  "('w, 'p) env \<Rightarrow> nat list \<Rightarrow> ('w, 'p) SnowpackInterface
    \<Rightarrow> outcome \<times> ('w, 'p) SnowpackInterface" where
  "write_received e [] s = (Returned, s)"
| "write_received e (ii # rest) s =
     (if ii = master_rank e then write_received e rest s
      else
        let snow_pixel = receive e ii in
        case writeOutputSpecialPoints e s (nextStepTimestamp s) snow_pixel of
          (Thrown ex, s1) \<Rightarrow> (Thrown ex, s1)
        | (_, s1) \<Rightarrow>
            let s2 = (if \<not> snow_write s1 \<and> \<not> snow_poi_written s1
                      then writeSnowCover s1 (nextStepTimestamp s1) snow_pixel else s1)
            in write_received e rest s2)"

definition write_special_points ::
  "('w, 'p) env \<Rightarrow> ('w, 'p) SnowpackInterface \<Rightarrow> outcome \<times> ('w, 'p) SnowpackInterface" where
  "write_special_points e s =
     (let snow_pixel = concat (map (worker_getOutputSpecialPoints e) (workers s)) in
      if do_io_locally s then
        (case writeOutputSpecialPoints e s (nextStepTimestamp s) snow_pixel of
           (Thrown ex, s1) \<Rightarrow> (Thrown ex, s1)
         | (_, s1) \<Rightarrow>
             let s2 = (if \<not> snow_write s1 \<and> \<not> snow_poi_written s1
                       then (writeSnowCover s1 (nextStepTimestamp s1) snow_pixel)
                              \<lparr>snow_poi_written := True\<rparr>
                       else s1)
             in (Returned, clearSpecialPointsData e s2))
      else if master e then
        (case writeOutputSpecialPoints e s (nextStepTimestamp s) snow_pixel of
           (Thrown ex, s1) \<Rightarrow> (Thrown ex, s1)
         | (_, s1) \<Rightarrow>
             let s2 = (if \<not> snow_write s1 \<and> \<not> snow_poi_written s1
                       then writeSnowCover s1 (nextStepTimestamp s1) snow_pixel else s1)
             in (case write_received e [0 ..< mpi_size e] s2 of
                   (Thrown ex, s3) \<Rightarrow> (Thrown ex, s3)
                 | (_, s3) \<Rightarrow>
                     (Returned, clearSpecialPointsData e (s3\<lparr>snow_poi_written := True\<rparr>))))
      else
        (Returned, clearSpecialPointsData e (emit [Send snow_pixel (master_rank e)] s)))"

section \<open>Gridded output\<close>

definition do_grid_output :: "('w, 'p) env \<Rightarrow> ('w, 'p) SnowpackInterface \<Rightarrow> Date \<Rightarrow> bool" where
  "do_grid_output e s date =
     (grids_write s \<and> booleanTime e date (grids_days_between s) (grids_start s) (dt_main e / 60))"

text \<open>One iteration of the loop of \<^verbatim>\<open>writeOutput\<close> over \<open>output_grids\<close>.\<close>

definition writeOutput_iter ::
  "('w, 'p) env \<Rightarrow> Date \<Rightarrow> ('w, 'p) SnowpackInterface \<Rightarrow> string
    \<Rightarrow> ('w, 'p) SnowpackInterface" where
  "writeOutput_iter e date s name =
     (case getGrid e s (SnGrids_getParameterIndex e name) of
        (grid, s1) \<Rightarrow>
          if master e then
            let grid' = (if mask_glaciers s1 then grid_times e grid (maskGlacier s1) else grid) in
            case MeteoGrids_getParameterIndex e name of
              Some meteoGrids_idx \<Rightarrow> emit [Write2DGrid grid' meteoGrids_idx date] s1
            | None \<Rightarrow> emit [Write2DGridNamed grid' (date_NUM e date @ ''_'' @ name @ ''.asc'')] s1
          else s1)"

definition writeOutput ::
  "('w, 'p) env \<Rightarrow> ('w, 'p) SnowpackInterface \<Rightarrow> Date \<Rightarrow> ('w, 'p) SnowpackInterface" where
  "writeOutput e s date =
     (let s1 = (if do_grid_output e s date then foldl (writeOutput_iter e date) s (output_grids s)
                else s)
      in if master e \<and> runoff s1 then emit [RunoffOutput date (psum s1) (ta s1)] s1 else s1)"

section \<open>The time step\<close>

text \<open>
  Modelled from the spec: the step of a worker on its slice,
  \<^verbatim>\<open>SnowpackInterfaceWorker::runModel\<close>, whose code lies outside this file ("for every
  non-skipped cell in the slice, supply sliced forcing grids restricted to this worker's
  columns, invoke the per-cell model's step function. A failure in one cell's model
  must not abort the other cells in the slice: the manager collects per-cell
  exceptions, reports a count, and the step is considered a worker-level failure only
  if at least one cell failed"). \<open>cells_of\<close> and \<open>with_cells\<close> read and replace the
  models of the cells that a worker holds, \<open>cell_step\<close> is the step of the model of one
  cell, which returns the cell and whether it failed, and \<open>report\<close> is the text of the
  exception that reports the number of the cells that failed.
\<close>

definition runStep ::
  "('w \<Rightarrow> 'c list) \<Rightarrow> ('w \<Rightarrow> 'c list \<Rightarrow> 'w)
    \<Rightarrow> ('c \<Rightarrow> Date \<Rightarrow> Grid2DObject list \<Rightarrow> real \<Rightarrow> 'c \<times> bool) \<Rightarrow> (nat \<Rightarrow> string)
    \<Rightarrow> 'w \<Rightarrow> Date \<Rightarrow> Grid2DObject list \<Rightarrow> real \<Rightarrow> 'w \<times> string option" where
  "runStep cells_of with_cells cell_step report w date slices elevation =
     (let results = map (\<lambda>c. cell_step c date slices elevation) (cells_of w);
          failures = length (filter snd results)
      in (with_cells w (map fst results),
          if failures > 0 then Some (report failures) else None))"

text \<open>
  One iteration of the loop of \<^verbatim>\<open>calcNextStep\<close> over the workers: the slices of the
  nine forcing grids for the columns of worker \<open>ii\<close>, in the order of the arguments of
  \<^verbatim>\<open>runModel\<close>, then the step of the worker, whose exception is caught, counted and
  printed. The source runs the iterations in parallel; the model runs them in the
  order of \<open>ii\<close>.
\<close>

definition worker_slices :: "('w, 'p) env \<Rightarrow> ('w, 'p) SnowpackInterface \<Rightarrow> nat \<Rightarrow> Grid2DObject list" where
  "worker_slices e s ii =
     map (\<lambda>g. subgrid e g (worker_startx s ! ii) 0 (worker_deltax s ! ii) (dimy s))
       [psum s, psum_ph s, rh s, ta s, vw s, mns s, shortwave s, diffuse s, longwave s]"

definition runModel_call ::
  "('w, 'p) env \<Rightarrow> ('w, 'p) SnowpackInterface \<Rightarrow> nat \<Rightarrow> 'w \<times> string option" where
  "runModel_call e s ii =
     worker_runModel e (workers s ! ii) (nextStepTimestamp s) (worker_slices e s ii)
       (solarElevation s)"

definition runModel_iter ::
  "('w, 'p) env \<Rightarrow> ('w, 'p) SnowpackInterface \<times> nat \<Rightarrow> nat
    \<Rightarrow> ('w, 'p) SnowpackInterface \<times> nat" where
  "runModel_iter e acc ii =
     (case acc of (s, errCount) \<Rightarrow>
        (case runModel_call e s ii of
           (w, None) \<Rightarrow> (s\<lparr>workers := (workers s)[ii := w]\<rparr>, errCount)
         | (w, Some what) \<Rightarrow>
             (emit [ModelException what] (s\<lparr>workers := (workers s)[ii := w]\<rparr>), errCount + 1)))"

text \<open>The exchange with the attached modules after a step.\<close>

definition exchange_drift ::
  "('w, 'p) env \<Rightarrow> ('w, 'p) SnowpackInterface \<Rightarrow> ('w, 'p) SnowpackInterface" where
  "exchange_drift e s =
     (case getGrid e s HS of (cH, s1) \<Rightarrow>
      case getGrid e s1 SP of (sp, s2) \<Rightarrow>
      case getGrid e s2 RG of (rg, s3) \<Rightarrow>
      case getGrid e s3 N3 of (n3, s4) \<Rightarrow>
      case getGrid e s4 RB of (rb, s5) \<Rightarrow>
        emit [SnowSurfaceData cH sp rg n3 rb] s5)"

definition exchange_eb ::
  "('w, 'p) env \<Rightarrow> ('w, 'p) SnowpackInterface \<Rightarrow> ('w, 'p) SnowpackInterface" where
  "exchange_eb e s = (case getGrid e s TOP_ALB of (alb, s1) \<Rightarrow> emit [Albedo alb] s1)"

text \<open>
  \<^verbatim>\<open>calcNextStep\<close> from \<^verbatim>\<open>timer.restart()\<close> on, the step itself, in two parts:
  \<open>finish_step\<close> is what follows the test of \<open>errCount\<close>.
\<close>

definition finish_step ::
  "('w, 'p) env \<Rightarrow> ('w, 'p) SnowpackInterface \<Rightarrow> ('w, 'p) SnowpackInterface" where
  "finish_step e s2 =
     (let s3 = (if drift s2 then exchange_drift e s2 else s2);
          s4 = (if eb s3 then exchange_eb e s3 else s3);
          s5 = writeOutput e s4 (nextStepTimestamp s4);
          s6 = emit [TimerStop] s5;
          s7 = (if master e then emit [SimulationsDone (nextStepTimestamp s6)] s6 else s6)
      in s7\<lparr>nextStepTimestamp := nextStepTimestamp s7 + timeStep s7\<rparr>)"

definition run_step ::
  "('w, 'p) env \<Rightarrow> ('w, 'p) SnowpackInterface \<Rightarrow> outcome \<times> ('w, 'p) SnowpackInterface" where
  "run_step e s =
     (case foldl (runModel_iter e) (emit [TimerRestart] s, 0) [0 ..< length (workers s)] of
        (s1, errCount) \<Rightarrow>
          (case (if pts s1 \<noteq> [] then write_special_points e s1 else (Returned, s1)) of
             (Thrown ex, s2) \<Rightarrow> (Thrown ex, s2)
           | (_, s2) \<Rightarrow>
               if errCount > 0 then (Aborted, s2) else (Returned, finish_step e s2)))"

definition calcNextStep ::
  "('w, 'p) env \<Rightarrow> ('w, 'p) SnowpackInterface \<Rightarrow> outcome \<times> ('w, 'p) SnowpackInterface" where
  "calcNextStep e s =
     (if \<not> dataMeteo2D s then (Returned, s)
      else if drift s \<and> \<not> dataSnowDrift s then (Returned, s)
      else if da s \<and> \<not> dataDa s then (Returned, s)
      else if eb s \<and> \<not> dataRadiation s then (Returned, s)
      else if \<not> dataRadiation s then
        (Thrown (NoDataException ''Radiation data not available''), s)
      else
        run_step e
          (s\<lparr>dataRadiation := False, dataSnowDrift := False, dataMeteo2D := False,
              dataDa := False\<rparr>))"

section \<open>The producers' setters\<close>

definition assimilate ::
  "('w, 'p) env \<Rightarrow> ('w, 'p) SnowpackInterface \<Rightarrow> Grid2DObject \<Rightarrow> Date
    \<Rightarrow> outcome \<times> ('w, 'p) SnowpackInterface" where
  "assimilate e s daData timestamp =
     (if nextStepTimestamp s \<noteq> timestamp then
        (Thrown (InvalidArgumentException ''Assimilation and snowpack time steps don't match''), s)
      else
        calcNextStep e ((emit [UpdatingStateVariables] s)\<lparr>dataDa := True\<rparr>))"

definition setSnowMassChange ::
  "('w, 'p) env \<Rightarrow> ('w, 'p) SnowpackInterface \<Rightarrow> Grid2DObject \<Rightarrow> Date
    \<Rightarrow> outcome \<times> ('w, 'p) SnowpackInterface" where
  "setSnowMassChange e s new_mns timestamp =
     (if nextStepTimestamp s \<noteq> timestamp then
        (Thrown (InvalidArgumentException ''Snowdrift and snowpack steps don't match''),
         if master e
         then emit [TimingMessage ''drift snow mass'' timestamp (nextStepTimestamp s)] s else s)
      else if \<not> isSameGeolocalization new_mns (dem s) then
        (Thrown (IndexOutOfBoundsException (nx (grid2D new_mns)) (ny (grid2D new_mns))
                   (nx (grid2D (dem s))) (ny (grid2D (dem s)))), s)
      else
        calcNextStep e (s\<lparr>mns := new_mns, dataSnowDrift := True\<rparr>))"

text \<open>
  The part of \<^verbatim>\<open>setMeteo\<close> that stores the air temperature: as given, or corrected
  for the katabatic flow over the glaciers.
\<close>

definition store_ta ::
  "('w, 'p) env \<Rightarrow> ('w, 'p) SnowpackInterface \<Rightarrow> Grid2DObject \<Rightarrow> ('w, 'p) SnowpackInterface" where
  "store_ta e s new_ta =
     (if \<not> glacier_katabatic_flow s then s\<lparr>ta := new_ta\<rparr>
      else
        let s1 = (if mask_dynamic s then s\<lparr>glaciers := maskGlacier s\<rparr> else s) in
        case getGrid e s1 TSS of (tss, s2) \<Rightarrow>
        case getGrid e s2 HS of (cH, s3) \<Rightarrow>
          s3\<lparr>ta := correctTemperatures e (glaciers s3) cH tss new_ta\<rparr>)"

text \<open>\<^verbatim>\<open>setMeteo\<close> after the test of the timestamp, up to the call of \<^verbatim>\<open>calcNextStep\<close>.\<close>

definition store_meteo ::
  "('w, 'p) env \<Rightarrow> ('w, 'p) SnowpackInterface \<Rightarrow> Grid2DObject \<Rightarrow> Grid2DObject \<Rightarrow> Grid2DObject
    \<Rightarrow> Grid2DObject \<Rightarrow> Grid2DObject \<Rightarrow> ('w, 'p) SnowpackInterface" where
  "store_meteo e s new_psum new_psum_ph new_vw new_rh new_ta =
     (let s1 = s\<lparr>psum := new_psum, psum_ph := new_psum_ph, vw := new_vw, rh := new_rh\<rparr>;
          s2 = (if mask_dynamic s1
                then (case getGrid e s1 GLACIER of (g, s') \<Rightarrow> s'\<lparr>maskGlacier := g\<rparr>)
                else s1);
          s3 = store_ta e s2 new_ta
      in s3\<lparr>dataMeteo2D := True\<rparr>)"

definition setMeteo ::
  "('w, 'p) env \<Rightarrow> ('w, 'p) SnowpackInterface \<Rightarrow> Grid2DObject \<Rightarrow> Grid2DObject \<Rightarrow> Grid2DObject
    \<Rightarrow> Grid2DObject \<Rightarrow> Grid2DObject \<Rightarrow> Date \<Rightarrow> outcome \<times> ('w, 'p) SnowpackInterface" where
  "setMeteo e s new_psum new_psum_ph new_vw new_rh new_ta timestamp =
     (if nextStepTimestamp s \<noteq> timestamp then
        (Thrown (InvalidArgumentException ''Meteo and snowpack time steps don't match''),
         if master e
         then emit [TimingMessage ''meteo fields'' timestamp (nextStepTimestamp s)] s else s)
      else
        calcNextStep e (store_meteo e s new_psum new_psum_ph new_vw new_rh new_ta))"

text \<open>\<^verbatim>\<open>setRadiationComponents\<close> likewise: the assignments, then the whole setter.\<close>

definition store_radiation ::
  "('w, 'p) SnowpackInterface \<Rightarrow> Array2D \<Rightarrow> Array2D \<Rightarrow> Array2D \<Rightarrow> real
    \<Rightarrow> ('w, 'p) SnowpackInterface" where
  "store_radiation s shortwave_in longwave_in diff_in solarElevation_in =
     s\<lparr>shortwave := (shortwave s)\<lparr>grid2D := shortwave_in\<rparr>,
       longwave := (longwave s)\<lparr>grid2D := longwave_in\<rparr>,
       diffuse := (diffuse s)\<lparr>grid2D := diff_in\<rparr>,
       solarElevation := solarElevation_in,
       dataRadiation := True\<rparr>"

definition setRadiationComponents ::
  "('w, 'p) env \<Rightarrow> ('w, 'p) SnowpackInterface \<Rightarrow> Array2D \<Rightarrow> Array2D \<Rightarrow> Array2D \<Rightarrow> real
    \<Rightarrow> Date \<Rightarrow> outcome \<times> ('w, 'p) SnowpackInterface" where
  "setRadiationComponents e s shortwave_in longwave_in diff_in solarElevation_in timestamp =
     (if nextStepTimestamp s \<noteq> timestamp then
        (Thrown (InvalidArgumentException ''Radiation and snowpack time steps don't match''),
         if master e
         then emit [TimingMessage ''radiation fields'' timestamp (nextStepTimestamp s)] s else s)
      else
        calcNextStep e (store_radiation s shortwave_in longwave_in diff_in solarElevation_in))"

section \<open>Vocabulary of the statements\<close>

text \<open>
  The pair that \<^verbatim>\<open>prepare_pts\<close> stores for a point of interest, the grid cell of a
  point whose indices are not negative, the order of the cells by row and then by
  column, and the position of the first occurrence of an element in a list.
\<close>

definition stored_cell :: "Coords \<Rightarrow> nat \<times> nat" where
  "stored_cell c = (size_t_of_int (getGridI c), size_t_of_int (getGridJ c))"

definition cell_of :: "Coords \<Rightarrow> nat \<times> nat" where
  "cell_of c = (nat (getGridI c), nat (getGridJ c))"

definition row_column_less :: "nat \<times> nat \<Rightarrow> nat \<times> nat \<Rightarrow> bool" where
  "row_column_less l r = (snd l < snd r \<or> (snd l = snd r \<and> fst l < fst r))"

definition first_index :: "'a list \<Rightarrow> 'a \<Rightarrow> nat" where
  "first_index xs x = length (takeWhile (\<lambda>y. y \<noteq> x) xs)"

definition poi :: "nat \<Rightarrow> nat \<Rightarrow> Coords" where
  "poi i j =
     \<lparr>coordsystem = ''CH1903'', easting = 0, northing = 0, getGridI = int i, getGridJ = int j\<rparr>"

text \<open>
  An array is well formed when \<open>vecData\<close> has one entry for each cell.
\<close>

definition wf_array :: "Array2D \<Rightarrow> bool" where
  "wf_array a = (length (vecData a) = nx a * ny a)"

text \<open>The parameters that \<^verbatim>\<open>getGrid\<close> answers from the stored forcing grids.\<close>

definition is_forcing :: "SnGrids \<Rightarrow> bool" where
  "is_forcing param = (param \<in> {TA, RH, VW, PSUM, PSUM_PH, ISWR, ILWR})"

text \<open>
  The grid that the loop of \<^verbatim>\<open>getGrid\<close> has assembled on this process when it reaches
  \<^verbatim>\<open>allreduce_sum\<close>, and the columns of worker \<open>ii\<close>.
\<close>

definition spliced :: "('w, 'p) env \<Rightarrow> ('w, 'p) SnowpackInterface \<Rightarrow> SnGrids \<Rightarrow> Grid2DObject" where
  "spliced e s param =
     fst (foldl (getGrid_iter e s param) (Grid2DObject_init (dem s) 0, 0)
            [0 ..< length (workers s)])"

definition owns :: "('w, 'p) SnowpackInterface \<Rightarrow> nat \<Rightarrow> nat \<Rightarrow> bool" where
  "owns s ii x = (worker_startx s ! ii \<le> x \<and> x < worker_startx s ! ii + worker_deltax s ! ii)"

text \<open>
  The state without the parts that output and a step may touch besides the flags and
  the clock: two states with the same \<open>frame\<close> agree on every member but \<open>workers\<close>,
  \<open>snow_poi_written\<close> and the trace. \<open>steps_started\<close> counts the steps that have begun,
  each of which restarts the timer once. \<open>quiet s s'\<close>: from \<open>s\<close> to \<open>s'\<close> only those
  parts have changed, the trace has grown, and no step has begun.
\<close>

definition frame :: "('w, 'p) SnowpackInterface \<Rightarrow> ('w, 'p) SnowpackInterface" where
  "frame s = s\<lparr>workers := [], snow_poi_written := False, trace := []\<rparr>"

definition steps_started :: "('w, 'p) SnowpackInterface \<Rightarrow> nat" where
  "steps_started s = count_list (trace s) TimerRestart"

definition quiet :: "('w, 'p) SnowpackInterface \<Rightarrow> ('w, 'p) SnowpackInterface \<Rightarrow> bool" where
  "quiet s s' =
     (frame s' = frame s \<and> (\<exists>es. trace s' = trace s @ es \<and> TimerRestart \<notin> set es))"

text \<open>The four readiness flags, and what the producers have stored.\<close>

definition readiness :: "('w, 'p) SnowpackInterface \<Rightarrow> bool \<times> bool \<times> bool \<times> bool" where
  "readiness s = (dataMeteo2D s, dataRadiation s, dataSnowDrift s, dataDa s)"

definition forcing :: "('w, 'p) SnowpackInterface \<Rightarrow> Grid2DObject list \<times> real" where
  "forcing s =
     ([psum s, psum_ph s, vw s, rh s, ta s, shortwave s, longwave s, diffuse s, mns s],
      solarElevation s)"

text \<open>
  For the loop of a step over the first \<open>n\<close> workers: what it prints, and the workers
  whose \<^verbatim>\<open>runModel\<close> threw.
\<close>

definition model_messages ::
  "('w, 'p) env \<Rightarrow> ('w, 'p) SnowpackInterface \<Rightarrow> nat \<Rightarrow> 'p event list" where
  "model_messages e s n =
     concat (map (\<lambda>ii. case snd (runModel_call e s ii) of
                          None \<Rightarrow> [] | Some what \<Rightarrow> [ModelException what])
       [0 ..< n])"

definition failed_workers :: "('w, 'p) env \<Rightarrow> ('w, 'p) SnowpackInterface \<Rightarrow> nat \<Rightarrow> nat list" where
  "failed_workers e s n = filter (\<lambda>ii. snd (runModel_call e s ii) \<noteq> None) [0 ..< n]"

text \<open>
  The state when the loop of a step has run all workers: each worker is the result of
  its own \<^verbatim>\<open>runModel\<close>, and the timer call and the messages of the exceptions have been
  recorded. \<open>cleared\<close> resets the four readiness flags, as \<^verbatim>\<open>calcNextStep\<close> does before
  the step; \<open>ready\<close> is the condition under which it goes on to the step.
\<close>

definition after_workers ::
  "('w, 'p) env \<Rightarrow> ('w, 'p) SnowpackInterface \<Rightarrow> ('w, 'p) SnowpackInterface" where
  "after_workers e s =
     s\<lparr>workers := map (\<lambda>ii. fst (runModel_call e s ii)) [0 ..< length (workers s)],
       trace := trace s @ TimerRestart # model_messages e s (length (workers s))\<rparr>"

definition cleared :: "('w, 'p) SnowpackInterface \<Rightarrow> ('w, 'p) SnowpackInterface" where
  "cleared s =
     s\<lparr>dataRadiation := False, dataSnowDrift := False, dataMeteo2D := False, dataDa := False\<rparr>"

definition ready :: "('w, 'p) SnowpackInterface \<Rightarrow> bool" where
  "ready s =
     (dataMeteo2D s \<and> dataRadiation s \<and> (drift s \<longrightarrow> dataSnowDrift s) \<and> (da s \<longrightarrow> dataDa s))"

text \<open>
  A small configuration on which the statements are evaluated: a domain of eight columns
  and two rows on one process, four workers of two columns each, the energy-balance
  module attached. A worker of the example holds the models of its four cells and steps
  them as \<open>runStep\<close> says; the model of a cell counts its steps and fails when it
  \<open>diverges\<close>. A worker answers every query with a grid holding its number, and worker
  1 has no glacier grid.
\<close>

record ex_cell =
  steps_done :: nat
  diverges :: bool

record ex_worker =
  wid :: nat
  width :: nat
  cells :: "ex_cell list"
  points :: "string list"

definition ex_cell_step :: "ex_cell \<Rightarrow> Date \<Rightarrow> Grid2DObject list \<Rightarrow> real \<Rightarrow> ex_cell \<times> bool" where
  "ex_cell_step c date slices elevation = (c\<lparr>steps_done := Suc (steps_done c)\<rparr>, diverges c)"

definition const_grid :: "nat \<Rightarrow> nat \<Rightarrow> real \<Rightarrow> Grid2DObject" where
  "const_grid ncols nrows v =
     \<lparr>grid2D = \<lparr>nx = ncols, ny = nrows, vecData = replicate (ncols * nrows) v\<rparr>,
      cellsize = 1, llcorner = poi 0 0\<rparr>"

definition ex_env :: "(ex_worker, string) env" where
  "ex_env =
     \<lparr>master = True, mpi_size = 1, master_rank = 0, allreduce_sum = (\<lambda>g. g),
      receive = (\<lambda>ii. []),
      worker_getGrid = (\<lambda>w param.
         if param = GLACIER \<and> wid w = 1 then const_grid 0 0 0
         else const_grid (width w) 2 (real (wid w))),
      worker_runModel =
        runStep cells (\<lambda>w cs. w\<lparr>cells := cs\<rparr>) ex_cell_step (\<lambda>failures. ''diverged''),
      worker_getOutputSpecialPoints = points,
      worker_clearSpecialPointsData = (\<lambda>w. w),
      subgrid = (\<lambda>g i_nx i_ny ncols nrows. const_grid ncols nrows 0),
      grid_times = (\<lambda>g m. g),
      correctTemperatures = (\<lambda>glacier_map cH tss g. tss),
      booleanTime = (\<lambda>julian days_between start step. True),
      dt_main = 3600,
      validFileAndPath = (\<lambda>name. True),
      open_fails = (\<lambda>name. False),
      stationName = (\<lambda>p. p),
      SnGrids_getParameterIndex = (\<lambda>name. HS),
      MeteoGrids_getParameterIndex = (\<lambda>name. None),
      date_NUM = (\<lambda>date. ''date'')\<rparr>"

definition ex_worker :: "nat \<Rightarrow> bool \<Rightarrow> string list \<Rightarrow> ex_worker" where
  "ex_worker i d ps =
     \<lparr>wid = i, width = 2,
      cells = [\<lparr>steps_done = 0, diverges = False\<rparr>, \<lparr>steps_done = 0, diverges = d\<rparr>,
               \<lparr>steps_done = 0, diverges = False\<rparr>, \<lparr>steps_done = 0, diverges = False\<rparr>],
      points = ps\<rparr>"

definition ex_state :: "(ex_worker, string) SnowpackInterface" where
  "ex_state =
     \<lparr>dimx = 8, dimy = 2,
      mns = const_grid 8 2 0, shortwave = const_grid 8 2 0, longwave = const_grid 8 2 0,
      diffuse = const_grid 8 2 0, psum = const_grid 8 2 0, psum_ph = const_grid 8 2 0,
      vw = const_grid 8 2 0, rh = const_grid 8 2 0, ta = const_grid 8 2 0,
      solarElevation = 0, output_grids = [],
      workers = [ex_worker 0 False [], ex_worker 1 False [''1_0_run''], ex_worker 2 False [],
                 ex_worker 3 False []],
      worker_startx = [0, 2, 4, 6], worker_deltax = [2, 2, 2, 2],
      nextStepTimestamp = 100, timeStep = 1 / 24,
      drift = False, eb = True, da = False, runoff = False,
      dataMeteo2D = False, dataDa = False, dataSnowDrift = False, dataRadiation = False,
      mask_glaciers = False, mask_dynamic = False, maskGlacier = const_grid 8 2 1,
      glacier_katabatic_flow = False, glaciers = const_grid 8 2 1,
      dem = const_grid 8 2 1000, do_io_locally = True,
      grids_start = 0, grids_days_between = 1, ts_start = 0, ts_days_between = 1,
      prof_days_between = 1, grids_write = False, ts_write = False, prof_write = False,
      snow_write = False, snow_poi_written = False, meteo_outpath = ''out'',
      pts = [(2, 0)], trace = []\<rparr>"

text \<open>
  A rejected call: it throws the invalid-argument exception with the given message, and
  the flags, the stored fields, the clock and the number of steps begun are what they
  were; the coordinator differs from the one before the call at most in what was printed.
\<close>

definition rejected ::
  "('w, 'p) SnowpackInterface \<Rightarrow> string \<Rightarrow> outcome \<times> ('w, 'p) SnowpackInterface \<Rightarrow> bool" where
  "rejected s msg r =
     (fst r = Thrown (InvalidArgumentException msg)
      \<and> readiness (snd r) = readiness s \<and> forcing (snd r) = forcing s
      \<and> nextStepTimestamp (snd r) = nextStepTimestamp s
      \<and> steps_started (snd r) = steps_started s
      \<and> (snd r)\<lparr>trace := trace s\<rparr> = s)"



definition local_points :: "('w, 'p) env \<Rightarrow> ('w, 'p) SnowpackInterface \<Rightarrow> 'p list" where
  "local_points e s = concat (map (worker_getOutputSpecialPoints e) (workers s))"







text \<open>
  Further configurations of the example: an array of one cell, the coordinator with the
  katabatic flow over glaciers switched on, with the fields of meteo and radiation
  delivered, with these delivered and one cell of worker 1 diverging, and without the
  energy-balance module when only the fields of meteo have arrived. Then the
  environment in which no file can be opened, the master of two processes that gathers
  the points (process 1 sends one point), with the coordinator that does not write
  locally, and a process that is not the master.
\<close>

definition small_array :: Array2D where
  "small_array = \<lparr>nx = 1, ny = 1, vecData = [5]\<rparr>"

definition ex_glacier :: "(ex_worker, string) SnowpackInterface" where
  "ex_glacier = ex_state\<lparr>glacier_katabatic_flow := True\<rparr>"



definition ex_no_eb :: "(ex_worker, string) SnowpackInterface" where
  "ex_no_eb = ex_state\<lparr>eb := False, dataMeteo2D := True\<rparr>"





section \<open>Properties of the registration of the points of interest\<close>

lemma find_pos_None: "find_pos ps t = None \<longleftrightarrow> t \<notin> set ps"
  by (induction ps) auto

lemma find_pos_Some: "find_pos ps t = Some k \<Longrightarrow> k < length ps \<and> ps ! k = t"
proof (induction ps arbitrary: k)
  case Nil
  then show ?case by simp
next
  case (Cons p ps)
  then show ?case by (auto split: if_splits)
qed

lemma set_insert_cmp: "set (insert_cmp cmp x ys) = insert x (set ys)"
  by (induction ys) auto

lemma set_sort_cmp: "set (sort_cmp cmp xs) = set xs"
  by (induction xs) (auto simp: set_insert_cmp)

lemma distinct_insert_cmp: "x \<notin> set ys \<Longrightarrow> distinct ys \<Longrightarrow> distinct (insert_cmp cmp x ys)"
  by (induction ys) (auto simp: set_insert_cmp)

lemma distinct_sort_cmp: "distinct xs \<Longrightarrow> distinct (sort_cmp cmp xs)"
  by (induction xs) (auto simp: distinct_insert_cmp set_sort_cmp)

text \<open>On distinct cells the order by row and column is a strict total order.\<close>

lemma row_column_less_trans:
  "row_column_less a b \<Longrightarrow> row_column_less b c \<Longrightarrow> row_column_less a c"
  by (auto simp: row_column_less_def split: if_splits)

lemma row_column_less_total: "a \<noteq> b \<Longrightarrow> \<not> row_column_less a b \<Longrightarrow> row_column_less b a"
  by (cases a; cases b) (auto simp: row_column_less_def split: if_splits)

lemma row_column_less_irrefl: "\<not> row_column_less a a"
  by (simp add: row_column_less_def)

lemma row_column_less_asym: "row_column_less a b \<Longrightarrow> \<not> row_column_less b a"
  by (auto simp: row_column_less_def split: if_splits)

lemma sorted_insert_cmp:
  "sorted_wrt row_column_less ys \<Longrightarrow> x \<notin> set ys
    \<Longrightarrow> sorted_wrt row_column_less (insert_cmp row_column_less x ys)"
proof (induction ys)
  case Nil
  then show ?case by simp
next
  case (Cons y ys)
  show ?case
  proof (cases "row_column_less x y")
    case True
    then have "\<forall>z\<in>set ys. row_column_less x z"
      using Cons.prems(1) row_column_less_trans by auto
    with True Cons.prems show ?thesis by simp
  next
    case False
    then have yx: "row_column_less y x"
      using Cons.prems(2) row_column_less_total [of x y] by auto
    have "sorted_wrt row_column_less (insert_cmp row_column_less x ys)"
      using Cons by simp
    with False yx Cons.prems(1) show ?thesis
      by (auto simp: set_insert_cmp)
  qed
qed

lemma sorted_sort_cmp:
  "distinct xs \<Longrightarrow> sorted_wrt row_column_less (sort_cmp row_column_less xs)"
  by (induction xs) (auto simp: sorted_insert_cmp set_sort_cmp)

lemma sorted_wrt_row_column_less_unique:
  "sorted_wrt row_column_less xs \<Longrightarrow> sorted_wrt row_column_less ys \<Longrightarrow> set xs = set ys
    \<Longrightarrow> xs = ys"
proof (induction xs arbitrary: ys)
  case Nil
  then show ?case by simp
next
  case (Cons x xs)
  then obtain y ys' where ys: "ys = y # ys'" by (cases ys) auto
  have xy: "x = y"
  proof (rule ccontr)
    assume ne: "x \<noteq> y"
    then have "x \<in> set ys'" "y \<in> set xs" using Cons.prems(3) ys by auto
    then have "row_column_less y x" "row_column_less x y"
      using Cons.prems(1,2) ys by auto
    then show False using row_column_less_asym by blast
  qed
  have "x \<notin> set xs"
    using Cons.prems(1) row_column_less_irrefl by fastforce
  moreover have "y \<notin> set ys'"
    using Cons.prems(2) ys row_column_less_irrefl by fastforce
  ultimately have "set xs = set ys'" using Cons.prems(3) ys xy by auto
  then have "xs = ys'" using Cons.IH [of ys'] Cons.prems(1,2) ys by simp
  with xy ys show ?case by simp
qed

text \<open>
  Whatever algorithm \<^verbatim>\<open>std::sort\<close> runs with such an order, its result on a vector
  without repetition is the list computed by \<open>sort_cmp\<close>.
\<close>

lemma sort_cmp_unique:
  assumes "distinct xs" "set ys = set xs" "sorted_wrt row_column_less ys"
  shows "ys = sort_cmp row_column_less xs"
  using sorted_wrt_row_column_less_unique [OF assms(3) sorted_sort_cmp [OF assms(1)]] assms(2)
  by (simp add: set_sort_cmp)

text \<open>
  The conversions are exact on the indices below \<open>2^53\<close> that are not negative, and
  there \<^verbatim>\<open>pair_comparator\<close> on the converted pairs is the order by row and column.
\<close>

declare significant_bits.simps [simp del]

lemma significant_bits_le: "n < 2 ^ k \<Longrightarrow> significant_bits n \<le> k"
proof (induction k arbitrary: n)
  case 0
  then show ?case by (simp add: significant_bits.simps)
next
  case (Suc k)
  show ?case
  proof (cases "n = 0")
    case True
    then show ?thesis by (simp add: significant_bits.simps)
  next
    case False
    have "n div 2 < 2 ^ k" using Suc.prems by simp
    then have "significant_bits (n div 2) \<le> k" by (rule Suc.IH)
    then show ?thesis using False by (subst significant_bits.simps) simp
  qed
qed

lemma double_of_size_t_exact: "n < 2 ^ 53 \<Longrightarrow> double_of_size_t n = real n"
  using significant_bits_le [of n 53] by (simp add: double_of_size_t_def)

lemma size_t_of_int_exact: "0 \<le> i \<Longrightarrow> i < 2 ^ 53 \<Longrightarrow> size_t_of_int i = nat i"
  by (simp add: size_t_of_int_def)

lemma size_t_of_int_less: "0 \<le> i \<Longrightarrow> i < 2 ^ 53 \<Longrightarrow> size_t_of_int i < 2 ^ 53"
  by (simp add: size_t_of_int_exact nat_less_iff)

lemma pair_comparator_exact:
  assumes "fst l < 2 ^ 53" "snd l < 2 ^ 53" "fst r < 2 ^ 53" "snd r < 2 ^ 53"
  shows "pair_comparator (pair_of_doubles l) (pair_of_doubles r) = row_column_less l r"
  using assms
  by (auto simp: pair_comparator_def pair_of_doubles_def row_column_less_def
      double_of_size_t_exact)

lemma insert_cmp_cong:
  "\<forall>y \<in> set ys. cmp x y = cmp' x y \<Longrightarrow> insert_cmp cmp x ys = insert_cmp cmp' x ys"
  by (induction ys) auto

lemma sort_cmp_cong:
  "\<forall>x \<in> set xs. \<forall>y \<in> set xs. cmp x y = cmp' x y \<Longrightarrow> sort_cmp cmp xs = sort_cmp cmp' xs"
proof (induction xs)
  case Nil
  then show ?case by simp
next
  case (Cons x xs)
  have "sort_cmp cmp xs = sort_cmp cmp' xs" using Cons by simp
  moreover have "insert_cmp cmp x (sort_cmp cmp' xs) = insert_cmp cmp' x (sort_cmp cmp' xs)"
    using Cons.prems by (intro insert_cmp_cong) (simp add: set_sort_cmp)
  ultimately show ?case by simp
qed

lemma first_index_append1: "x \<in> set pre \<Longrightarrow> first_index (pre @ rest) x = first_index pre x"
  by (simp add: first_index_def)

lemma first_index_append2:
  "x \<notin> set pre \<Longrightarrow> first_index (pre @ x # rest) x = length pre"
  unfolding first_index_def by (induction pre) auto

text \<open>
  The invariant of the loop, \<open>pre\<close> being the points already seen: \<open>ps\<close> holds their
  stored pairs once each, \<open>vec_idx\<close> the position at which each pair came first.
\<close>

lemma prepare_loop_inv:
  assumes "set ps = stored_cell ` set pre" "distinct ps" "length vec_idx = length ps"
    "\<forall>k < length ps. vec_idx ! k = first_index (map stored_cell (pre @ cs)) (ps ! k)"
    "ii = length pre"
  shows "case prepare_loop is_master cs ii ps vec_idx out of (ps', vec_idx', out') \<Rightarrow>
    set ps' = stored_cell ` set (pre @ cs) \<and> distinct ps' \<and>
    out' = (if is_master
            then out @ map (\<lambda>i. PoiDuplicate i
                              (first_index (map stored_cell (pre @ cs)) (map stored_cell (pre @ cs) ! i)))
                (filter (\<lambda>i. map stored_cell (pre @ cs) ! i \<in> set (take i (map stored_cell (pre @ cs))))
                   [ii ..< length (pre @ cs)])
            else out)"
  using assms
proof (induction cs arbitrary: pre ps vec_idx out ii)
  case Nil
  then show ?case by simp
next
  case (Cons c cs)
  let ?all = "map stored_cell (pre @ c # cs)"
  let ?P = "\<lambda>i. ?all ! i \<in> set (take i ?all)"
  let ?ev = "\<lambda>i. PoiDuplicate i (first_index ?all (?all ! i))"
  have app: "(pre @ [c]) @ cs = pre @ c # cs" by simp
  have all_ii: "?all ! ii = stored_cell c" using Cons.prems(5) by (simp add: nth_append)
  have take_ii: "set (take ii ?all) = stored_cell ` set pre" using Cons.prems(5) by simp
  have upt: "[ii ..< length (pre @ c # cs)] = ii # [Suc ii ..< length (pre @ c # cs)]"
    by (rule upt_conv_Cons) (simp add: Cons.prems(5))
  have P_ii: "?P ii \<longleftrightarrow> stored_cell c \<in> set ps"
    using all_ii take_ii Cons.prems(1) by simp
  have F: "filter ?P [ii ..< length (pre @ c # cs)]
    = (if stored_cell c \<in> set ps then [ii] else []) @ filter ?P [Suc ii ..< length (pre @ c # cs)]"
    using P_ii by (simp only: upt filter.simps split: if_splits) simp
  show ?case
  proof (cases "find_pos ps (stored_cell c)")
    case None
    then have notin: "stored_cell c \<notin> set ps" by (simp add: find_pos_None)
    then have notin': "stored_cell c \<notin> set (map stored_cell pre)" using Cons.prems(1) by simp
    have fi: "first_index ?all (stored_cell c) = ii"
      using first_index_append2 [OF notin', of "map stored_cell cs"] Cons.prems(5) by simp
    have inv4: "\<forall>k < length (ps @ [stored_cell c]).
        (vec_idx @ [ii]) ! k
          = first_index (map stored_cell ((pre @ [c]) @ cs)) ((ps @ [stored_cell c]) ! k)"
      using Cons.prems(3,4) fi by (auto simp: nth_append less_Suc_eq)
    have IH: "case prepare_loop is_master cs (Suc ii) (ps @ [stored_cell c]) (vec_idx @ [ii]) out of
        (ps', vec_idx', out') \<Rightarrow>
      set ps' = stored_cell ` set ((pre @ [c]) @ cs) \<and> distinct ps' \<and>
      out' = (if is_master
              then out @ map (\<lambda>i. PoiDuplicate i
                     (first_index (map stored_cell ((pre @ [c]) @ cs))
                        (map stored_cell ((pre @ [c]) @ cs) ! i)))
                (filter (\<lambda>i. map stored_cell ((pre @ [c]) @ cs) ! i
                               \<in> set (take i (map stored_cell ((pre @ [c]) @ cs))))
                   [Suc ii ..< length ((pre @ [c]) @ cs)])
              else out)"
    proof (rule Cons.IH)
      show "set (ps @ [stored_cell c]) = stored_cell ` set (pre @ [c])" using Cons.prems(1) by auto
      show "distinct (ps @ [stored_cell c])" using Cons.prems(2) notin by simp
      show "length (vec_idx @ [ii]) = length (ps @ [stored_cell c])" using Cons.prems(3) by simp
      show "\<forall>k < length (ps @ [stored_cell c]).
        (vec_idx @ [ii]) ! k
          = first_index (map stored_cell ((pre @ [c]) @ cs)) ((ps @ [stored_cell c]) ! k)"
        by (rule inv4)
      show "Suc ii = length (pre @ [c])" using Cons.prems(5) by simp
    qed
    have step: "prepare_loop is_master (c # cs) ii ps vec_idx out
      = prepare_loop is_master cs (Suc ii) (ps @ [stored_cell c]) (vec_idx @ [ii]) out"
      using None by (simp add: stored_cell_def)
    show ?thesis
      unfolding step F using IH notin unfolding app by (simp only: if_False append_Nil)
  next
    case (Some k)
    then have k: "k < length ps" "ps ! k = stored_cell c" using find_pos_Some by fastforce+
    then have isin: "stored_cell c \<in> set ps" by (metis nth_mem)
    have vk: "vec_idx ! k = first_index ?all (stored_cell c)"
      using Cons.prems(4) k by auto
    have IH: "case prepare_loop is_master cs (Suc ii) ps vec_idx
         (if is_master then out @ [PoiDuplicate ii (vec_idx ! k)] else out) of
        (ps', vec_idx', out') \<Rightarrow>
      set ps' = stored_cell ` set ((pre @ [c]) @ cs) \<and> distinct ps' \<and>
      out' = (if is_master
              then (if is_master then out @ [PoiDuplicate ii (vec_idx ! k)] else out)
                @ map (\<lambda>i. PoiDuplicate i
                     (first_index (map stored_cell ((pre @ [c]) @ cs))
                        (map stored_cell ((pre @ [c]) @ cs) ! i)))
                (filter (\<lambda>i. map stored_cell ((pre @ [c]) @ cs) ! i
                               \<in> set (take i (map stored_cell ((pre @ [c]) @ cs))))
                   [Suc ii ..< length ((pre @ [c]) @ cs)])
              else (if is_master then out @ [PoiDuplicate ii (vec_idx ! k)] else out))"
    proof (rule Cons.IH)
      show "set ps = stored_cell ` set (pre @ [c])" using Cons.prems(1) isin by auto
      show "distinct ps" by (rule Cons.prems(2))
      show "length vec_idx = length ps" by (rule Cons.prems(3))
      show "\<forall>k < length ps.
        vec_idx ! k = first_index (map stored_cell ((pre @ [c]) @ cs)) (ps ! k)"
        using Cons.prems(4) by simp
      show "Suc ii = length (pre @ [c])" using Cons.prems(5) by simp
    qed
    have step: "prepare_loop is_master (c # cs) ii ps vec_idx out
      = prepare_loop is_master cs (Suc ii) ps vec_idx
         (if is_master then out @ [PoiDuplicate ii (vec_idx ! k)] else out)"
      using Some by (simp add: stored_cell_def)
    have ev: "PoiDuplicate ii (vec_idx ! k) = ?ev ii" using vk all_ii by simp
    show ?thesis
    proof (cases is_master)
      case True
      show ?thesis
        unfolding step F using IH isin unfolding app ev
        by (simp only: True if_True map_append list.map append_assoc append_Cons append_Nil)
    next
      case False
      show ?thesis
        unfolding step F using IH unfolding app by (simp only: False if_False)
    qed
  qed
qed

lemma prepare_pts_props:
  "case (prepare_pts is_master vec_pts :: (nat \<times> nat) list \<times> 'p event list) of (ps, out) \<Rightarrow>
     set ps = stored_cell ` set vec_pts \<and> distinct ps \<and>
     out = (if is_master
            then map (\<lambda>i. PoiDuplicate i
                        (first_index (map stored_cell vec_pts) (map stored_cell vec_pts ! i)))
                (filter (\<lambda>i. map stored_cell vec_pts ! i \<in> set (take i (map stored_cell vec_pts)))
                   [0 ..< length vec_pts])
            else [])"
proof -
  obtain ps0 vi out0 where
    loop: "prepare_loop is_master vec_pts 0 [] [] ([] :: 'p event list) = (ps0, vi, out0)"
    by (cases "prepare_loop is_master vec_pts 0 [] [] ([] :: 'p event list)") auto
  have "set ps0 = stored_cell ` set vec_pts \<and> distinct ps0 \<and>
     out0 = (if is_master
             then map (\<lambda>i. PoiDuplicate i
                         (first_index (map stored_cell vec_pts) (map stored_cell vec_pts ! i)))
                (filter (\<lambda>i. map stored_cell vec_pts ! i \<in> set (take i (map stored_cell vec_pts)))
                   [0 ..< length vec_pts])
             else [])"
    using prepare_loop_inv [of "[]" "[]" "[]" vec_pts 0 is_master "[] :: 'p event list"]
    unfolding loop by simp
  then show ?thesis
    unfolding prepare_pts_def loop
    by (simp add: set_sort_cmp distinct_sort_cmp)
qed

lemma prepare_pts_sorted:
  assumes "\<forall>c \<in> set vec_pts. 0 \<le> getGridI c \<and> getGridI c < 2 ^ 53
                              \<and> 0 \<le> getGridJ c \<and> getGridJ c < 2 ^ 53"
  shows "sorted_wrt row_column_less
           (fst (prepare_pts is_master vec_pts :: (nat \<times> nat) list \<times> 'p event list))"
    and "map stored_cell vec_pts = map cell_of vec_pts"
proof -
  show cells: "map stored_cell vec_pts = map cell_of vec_pts"
    using assms by (simp add: stored_cell_def cell_of_def size_t_of_int_exact)
  obtain ps0 vi out0 where
    loop: "prepare_loop is_master vec_pts 0 [] [] ([] :: 'p event list) = (ps0, vi, out0)"
    by (cases "prepare_loop is_master vec_pts 0 [] [] ([] :: 'p event list)") auto
  have inv: "set ps0 = stored_cell ` set vec_pts" "distinct ps0"
    using prepare_loop_inv [of "[]" "[]" "[]" vec_pts 0 is_master "[] :: 'p event list"]
    unfolding loop by simp_all
  have small: "\<forall>x \<in> set ps0. fst x < 2 ^ 53 \<and> snd x < 2 ^ 53"
  proof
    fix x
    assume "x \<in> set ps0"
    then obtain c where c: "c \<in> set vec_pts" "x = stored_cell c" unfolding inv(1) by blast
    have "size_t_of_int (getGridI c) < 2 ^ 53" "size_t_of_int (getGridJ c) < 2 ^ 53"
      using assms c(1) by (blast intro: size_t_of_int_less)+
    then show "fst x < 2 ^ 53 \<and> snd x < 2 ^ 53"
      unfolding c(2) stored_cell_def fst_conv snd_conv by (rule conjI)
  qed
  have "sort_cmp (\<lambda>l r. pair_comparator (pair_of_doubles l) (pair_of_doubles r)) ps0
      = sort_cmp row_column_less ps0"
    using small by (intro sort_cmp_cong ballI pair_comparator_exact) blast+
  then show "sorted_wrt row_column_less
           (fst (prepare_pts is_master vec_pts :: (nat \<times> nat) list \<times> 'p event list))"
    unfolding prepare_pts_def loop using sorted_sort_cmp [OF inv(2)] by simp
qed

text \<open>
  Outside these bounds the comparator does not order the stored pairs: the indices
  \<open>-1\<close> and \<open>-2\<close> are stored as two different numbers that convert to the same
  \<^verbatim>\<open>double\<close>.
\<close>

lemma pair_comparator_wrapped_indices:
  "size_t_of_int (- 1) \<noteq> size_t_of_int (- 2)
   \<and> \<not> pair_comparator (pair_of_doubles (size_t_of_int (- 1), 0))
         (pair_of_doubles (size_t_of_int (- 2), 0))
   \<and> \<not> pair_comparator (pair_of_doubles (size_t_of_int (- 2), 0))
         (pair_of_doubles (size_t_of_int (- 1), 0))"
  by (simp add: pair_comparator_def pair_of_doubles_def double_of_size_t_def size_t_of_int_def
      significant_bits.simps Let_def)

text \<open>
  Claim C8. After \<^verbatim>\<open>prepare_pts\<close> the registry holds each pair stored for a point of the
  input exactly once. On the master process every repeated point is reported together
  with the position of the first point with the same pair, which is the one that was
  kept, and nothing else is printed; the other processes print nothing. When the
  indices of the points are not negative and below \<open>2^53\<close>, as the indices of grid cells
  are, the stored pairs are the grid cells, and the registry is in ascending order of
  the row (the second index) and, within a row, of the column (the first index). The
  points \<open>(3,1)\<close>, \<open>(1,1)\<close>, \<open>(1,0)\<close> are registered as \<open>(1,0)\<close>, \<open>(1,1)\<close>, \<open>(3,1)\<close>,
  whether the pairs are read as column and row, as the registry stores them, or as row
  and column (the last conjunct, written as the registry stores it).
\<close>

theorem prepare_pts_registry:
  fixes vec_pts :: "Coords list"
  shows "distinct (fst (prepare_pts is_master vec_pts :: (nat \<times> nat) list \<times> 'p event list))
    \<and> set (fst (prepare_pts is_master vec_pts :: (nat \<times> nat) list \<times> 'p event list))
        = stored_cell ` set vec_pts
    \<and> snd (prepare_pts True vec_pts :: (nat \<times> nat) list \<times> 'p event list)
        = map (\<lambda>i. PoiDuplicate i
                     (first_index (map stored_cell vec_pts) (map stored_cell vec_pts ! i)))
            (filter (\<lambda>i. map stored_cell vec_pts ! i \<in> set (take i (map stored_cell vec_pts)))
               [0 ..< length vec_pts])
    \<and> snd (prepare_pts False vec_pts :: (nat \<times> nat) list \<times> 'p event list) = []
    \<and> ((\<forall>c \<in> set vec_pts. 0 \<le> getGridI c \<and> getGridI c < 2 ^ 53
                             \<and> 0 \<le> getGridJ c \<and> getGridJ c < 2 ^ 53) \<longrightarrow>
         map stored_cell vec_pts = map cell_of vec_pts
         \<and> set (fst (prepare_pts is_master vec_pts :: (nat \<times> nat) list \<times> 'p event list))
             = cell_of ` set vec_pts
         \<and> sorted_wrt (\<lambda>l r. snd l < snd r \<or> (snd l = snd r \<and> fst l < fst r))
             (fst (prepare_pts is_master vec_pts :: (nat \<times> nat) list \<times> 'p event list)))
    \<and> fst (prepare_pts is_master [poi 3 1, poi 1 1, poi 1 0]
             :: (nat \<times> nat) list \<times> 'p event list)
        = [(1, 0), (1, 1), (3, 1)]
    \<and> fst (prepare_pts is_master [poi 1 3, poi 1 1, poi 0 1]
             :: (nat \<times> nat) list \<times> 'p event list)
        = [(0, 1), (1, 1), (1, 3)]"
proof -
  have order: "row_column_less = (\<lambda>l r. snd l < snd r \<or> (snd l = snd r \<and> fst l < fst r))"
    by (intro ext) (rule row_column_less_def)
  have ex: "fst (prepare_pts is_master [poi 3 1, poi 1 1, poi 1 0]
             :: (nat \<times> nat) list \<times> 'p event list) = [(1, 0), (1, 1), (3, 1)]"
    "fst (prepare_pts is_master [poi 1 3, poi 1 1, poi 0 1]
             :: (nat \<times> nat) list \<times> 'p event list) = [(0, 1), (1, 1), (1, 3)]"
    by (simp_all add: prepare_pts_def poi_def pair_comparator_def pair_of_doubles_def
        double_of_size_t_exact size_t_of_int_def)
  note p = prepare_pts_props [where is_master = is_master and vec_pts = vec_pts and ?'p = 'p]
  have main: "distinct (fst (prepare_pts is_master vec_pts :: (nat \<times> nat) list \<times> 'p event list))"
    "set (fst (prepare_pts is_master vec_pts :: (nat \<times> nat) list \<times> 'p event list))
        = stored_cell ` set vec_pts"
    using p by (simp_all add: case_prod_beta)
  have log: "snd (prepare_pts True vec_pts :: (nat \<times> nat) list \<times> 'p event list)
        = map (\<lambda>i. PoiDuplicate i
                     (first_index (map stored_cell vec_pts) (map stored_cell vec_pts ! i)))
            (filter (\<lambda>i. map stored_cell vec_pts ! i \<in> set (take i (map stored_cell vec_pts)))
               [0 ..< length vec_pts])"
    "snd (prepare_pts False vec_pts :: (nat \<times> nat) list \<times> 'p event list) = []"
    using prepare_pts_props [where is_master = True and vec_pts = vec_pts and ?'p = 'p]
      prepare_pts_props [where is_master = False and vec_pts = vec_pts and ?'p = 'p]
    by (simp_all add: case_prod_beta)
  have grid: "map stored_cell vec_pts = map cell_of vec_pts
         \<and> set (fst (prepare_pts is_master vec_pts :: (nat \<times> nat) list \<times> 'p event list))
             = cell_of ` set vec_pts
         \<and> sorted_wrt (\<lambda>l r. snd l < snd r \<or> (snd l = snd r \<and> fst l < fst r))
             (fst (prepare_pts is_master vec_pts :: (nat \<times> nat) list \<times> 'p event list))"
    if b: "\<forall>c \<in> set vec_pts. 0 \<le> getGridI c \<and> getGridI c < 2 ^ 53
                             \<and> 0 \<le> getGridJ c \<and> getGridJ c < 2 ^ 53"
  proof -
    note s1 = prepare_pts_sorted(1) [OF b, where is_master = is_master and ?'p = 'p]
    note s2 = prepare_pts_sorted(2) [OF b]
    have "stored_cell ` set vec_pts = cell_of ` set vec_pts"
      using s2 by (metis set_map)
    then show ?thesis using s1 s2 main(2) unfolding order by simp
  qed
  show ?thesis
    using main log grid ex by blast
qed

theorem prepare_pts_registry_witness:
  "fst (prepare_pts True [poi 3 1, poi 1 1, poi 1 0, poi 1 1, poi 3 1]
         :: (nat \<times> nat) list \<times> unit event list) = [(1, 0), (1, 1), (3, 1)]
   \<and> snd (prepare_pts True [poi 3 1, poi 1 1, poi 1 0, poi 1 1, poi 3 1]
         :: (nat \<times> nat) list \<times> unit event list) = [PoiDuplicate 3 1, PoiDuplicate 4 0]
   \<and> distinct (fst (prepare_pts True [poi 3 1, poi 1 1, poi 1 0, poi 1 1, poi 3 1]
         :: (nat \<times> nat) list \<times> unit event list))
   \<and> sorted_wrt (\<lambda>l r. snd l < snd r \<or> (snd l = snd r \<and> fst l < fst r))
       (fst (prepare_pts True [poi 3 1, poi 1 1, poi 1 0, poi 1 1, poi 3 1]
         :: (nat \<times> nat) list \<times> unit event list))"
proof -
  have b: "\<forall>c \<in> set [poi 3 1, poi 1 1, poi 1 0, poi 1 1, poi 3 1].
      0 \<le> getGridI c \<and> getGridI c < 2 ^ 53 \<and> 0 \<le> getGridJ c \<and> getGridJ c < 2 ^ 53"
    by (simp add: poi_def)
  have v: "fst (prepare_pts True [poi 3 1, poi 1 1, poi 1 0, poi 1 1, poi 3 1]
         :: (nat \<times> nat) list \<times> unit event list) = [(1, 0), (1, 1), (3, 1)]"
    by (simp add: prepare_pts_def poi_def pair_comparator_def pair_of_doubles_def
        double_of_size_t_exact size_t_of_int_def)
  have lg: "snd (prepare_pts True [poi 3 1, poi 1 1, poi 1 0, poi 1 1, poi 3 1]
         :: (nat \<times> nat) list \<times> unit event list) = [PoiDuplicate 3 1, PoiDuplicate 4 0]"
    by (simp add: prepare_pts_def poi_def size_t_of_int_def)
  note t = prepare_pts_registry [where is_master = True
        and vec_pts = "[poi 3 1, poi 1 1, poi 1 0, poi 1 1, poi 3 1]" and ?'p = unit]
  have d: "distinct (fst (prepare_pts True [poi 3 1, poi 1 1, poi 1 0, poi 1 1, poi 3 1]
         :: (nat \<times> nat) list \<times> unit event list))"
    using t by blast
  have srt: "sorted_wrt (\<lambda>l r. snd l < snd r \<or> (snd l = snd r \<and> fst l < fst r))
       (fst (prepare_pts True [poi 3 1, poi 1 1, poi 1 0, poi 1 1, poi 3 1]
         :: (nat \<times> nat) list \<times> unit event list))"
    using t b by blast
  from v lg d srt show ?thesis by blast
qed
section \<open>Properties of the grid operations\<close>

lemma cell_index_less: "x < n \<Longrightarrow> y < m \<Longrightarrow> x + y * n < n * (m::nat)"
proof -
  assume a: "x < n" "y < m"
  then have "x + y * n < n + y * n" by simp
  also have "\<dots> = n * Suc y" by simp
  also have "\<dots> \<le> n * m" using a(2) by (intro mult_le_mono2) simp
  finally show ?thesis .
qed

lemma cell_index_inj:
  "x < n \<Longrightarrow> x' < n \<Longrightarrow> x + y * n = x' + y' * (n::nat) \<Longrightarrow> x = x' \<and> y = y'"
proof -
  assume a: "x < n" "x' < n" "x + y * n = x' + y' * n"
  have "(x + y * n) mod n = x" using a(1) by simp
  moreover have "(x' + y' * n) mod n = x'" using a(2) by simp
  ultimately have x: "x = x'" using a(3) by metis
  have "(x + y * n) div n = y" using a(1) by simp
  moreover have "(x' + y' * n) div n = y'" using a(2) by simp
  ultimately have "y = y'" using a(3) by metis
  with x show ?thesis by simp
qed

lemma nx_set_cell [simp]: "nx (set_cell a x y v) = nx a"
  and ny_set_cell [simp]: "ny (set_cell a x y v) = ny a"
  by (simp_all add: set_cell_def)

lemma wf_set_cell [simp]: "wf_array (set_cell a x y v) = wf_array a"
  by (simp add: set_cell_def wf_array_def)

lemma get_set_cell:
  assumes "wf_array a" "x < nx a" "y < ny a" "x' < nx a" "y' < ny a"
  shows "get_cell (set_cell a x y v) x' y' = (if x' = x \<and> y' = y then v else get_cell a x' y')"
proof -
  have "x + y * nx a < length (vecData a)"
    using assms cell_index_less by (simp add: wf_array_def)
  moreover have "x' + y' * nx a = x + y * nx a \<longleftrightarrow> x' = x \<and> y' = y"
    using cell_index_inj [of x' "nx a" x y' y] assms by auto
  ultimately show ?thesis
    by (auto simp: get_cell_def set_cell_def nth_list_update)
qed

lemma fill_row_props:
  assumes "wf_array a" "i_nx + i_ncols \<le> nx a" "jj < ny a"
  shows "nx (fill_row src i_nx i_ny i_ncols jj a) = nx a
    \<and> ny (fill_row src i_nx i_ny i_ncols jj a) = ny a
    \<and> wf_array (fill_row src i_nx i_ny i_ncols jj a)
    \<and> (\<forall>x y. x < nx a \<longrightarrow> y < ny a \<longrightarrow>
         get_cell (fill_row src i_nx i_ny i_ncols jj a) x y =
           (if y = jj \<and> i_nx \<le> x \<and> x < i_nx + i_ncols
            then get_cell src (x - i_nx) (jj - i_ny) else get_cell a x y))"
  using assms
proof (induction i_ncols)
  case 0
  then show ?case by (simp add: fill_row_def)
next
  case (Suc n)
  let ?r = "fill_row src i_nx i_ny n jj a"
  have IH: "nx ?r = nx a" "ny ?r = ny a" "wf_array ?r"
    "\<And>x y. x < nx a \<Longrightarrow> y < ny a \<Longrightarrow> get_cell ?r x y =
           (if y = jj \<and> i_nx \<le> x \<and> x < i_nx + n
            then get_cell src (x - i_nx) (jj - i_ny) else get_cell a x y)"
    using Suc by simp_all
  have step: "fill_row src i_nx i_ny (Suc n) jj a
    = set_cell ?r (i_nx + n) jj (get_cell src (i_nx + n - i_nx) (jj - i_ny))"
    by (simp add: fill_row_def)
  have in_range: "i_nx + n < nx ?r" "jj < ny ?r" using Suc.prems IH by simp_all
  show ?case
    unfolding step using IH in_range
    by (auto simp: get_set_cell)
qed

lemma fill_props:
  assumes "wf_array a" "i_nx + i_ncols \<le> nx a" "i_ny + i_nrows \<le> ny a"
  shows "nx (fill a src i_nx i_ny i_ncols i_nrows) = nx a
    \<and> ny (fill a src i_nx i_ny i_ncols i_nrows) = ny a
    \<and> wf_array (fill a src i_nx i_ny i_ncols i_nrows)
    \<and> (\<forall>x y. x < nx a \<longrightarrow> y < ny a \<longrightarrow>
         get_cell (fill a src i_nx i_ny i_ncols i_nrows) x y =
           (if i_ny \<le> y \<and> y < i_ny + i_nrows \<and> i_nx \<le> x \<and> x < i_nx + i_ncols
            then get_cell src (x - i_nx) (y - i_ny) else get_cell a x y))"
  using assms
proof (induction i_nrows)
  case 0
  then show ?case by (simp add: fill_def)
next
  case (Suc n)
  let ?r = "fill a src i_nx i_ny i_ncols n"
  have IH: "nx ?r = nx a" "ny ?r = ny a" "wf_array ?r"
    "\<And>x y. x < nx a \<Longrightarrow> y < ny a \<Longrightarrow> get_cell ?r x y =
           (if i_ny \<le> y \<and> y < i_ny + n \<and> i_nx \<le> x \<and> x < i_nx + i_ncols
            then get_cell src (x - i_nx) (y - i_ny) else get_cell a x y)"
    using Suc by simp_all
  have step: "fill a src i_nx i_ny i_ncols (Suc n) = fill_row src i_nx i_ny i_ncols (i_ny + n) ?r"
    by (simp add: fill_def)
  have row: "nx (fill_row src i_nx i_ny i_ncols (i_ny + n) ?r) = nx ?r
    \<and> ny (fill_row src i_nx i_ny i_ncols (i_ny + n) ?r) = ny ?r
    \<and> wf_array (fill_row src i_nx i_ny i_ncols (i_ny + n) ?r)
    \<and> (\<forall>x y. x < nx ?r \<longrightarrow> y < ny ?r \<longrightarrow>
         get_cell (fill_row src i_nx i_ny i_ncols (i_ny + n) ?r) x y =
           (if y = i_ny + n \<and> i_nx \<le> x \<and> x < i_nx + i_ncols
            then get_cell src (x - i_nx) (i_ny + n - i_ny) else get_cell ?r x y))"
    by (rule fill_row_props) (use Suc.prems IH in simp_all)
  show ?case
    unfolding step using row IH
    by (auto simp: less_Suc_eq)
qed

section \<open>What the operations leave unchanged\<close>

lemma frame_emit [simp]: "frame (emit es s) = frame s"
  by (simp add: frame_def emit_def)

lemma emit_fields [simp]:
  "workers (emit es s) = workers s"
  "snow_poi_written (emit es s) = snow_poi_written s" "trace (emit es s) = trace s @ es"
  by (simp_all add: emit_def)

lemma steps_started_emit [simp]: "steps_started (emit es s) = steps_started s + count_list es TimerRestart"
  by (simp add: steps_started_def)

lemma getGrid_workers_state:
  "snd (getGrid_workers e s param) = s \<or> snd (getGrid_workers e s param) = emit [NotAvailable param] s"
  by (simp add: getGrid_workers_def Let_def split: prod.splits)

lemma getGrid_state:
  "snd (getGrid e s param) = s \<or> snd (getGrid e s param) = emit [NotAvailable param] s"
  using getGrid_workers_state [of e s param] by (cases param) simp_all

lemma frame_getGrid [simp]: "frame (snd (getGrid e s param)) = frame s"
  using getGrid_state [of e s param] by auto

lemma getGrid_fields [simp]:
  "workers (snd (getGrid e s param)) = workers s"
  "snow_poi_written (snd (getGrid e s param)) = snow_poi_written s"
  "steps_started (snd (getGrid e s param)) = steps_started s"
  using getGrid_state [of e s param] by auto


lemma frame_write_SMET [simp]: "frame (snd (write_SMET e s p)) = frame s"
  by (simp add: write_SMET_def Let_def)

lemma steps_write_SMET [simp]: "steps_started (snd (write_SMET e s p)) = steps_started s"
  by (simp add: write_SMET_def Let_def)

lemma workers_write_SMET [simp]: "workers (snd (write_SMET e s p)) = workers s"
  by (simp add: write_SMET_def Let_def)

lemma write_SMET_ok:
  "validFileAndPath e (meteo_outpath s @ ''/'' @ stationName e p @ ''.smet'')
   \<Longrightarrow> \<not> open_fails e (meteo_outpath s @ ''/'' @ stationName e p @ ''.smet'')
   \<Longrightarrow> fst (write_SMET e s p) = Returned"
  by (simp add: write_SMET_def Let_def)

lemma write_SMET_outcome: "fst (write_SMET e s p) \<noteq> Aborted"
  by (simp add: write_SMET_def Let_def)

lemma wosp_loop_props:
  "frame (snd (writeOutputSpecialPoints_loop e TS PR date ps s)) = frame s
   \<and> steps_started (snd (writeOutputSpecialPoints_loop e TS PR date ps s)) = steps_started s
   \<and> workers (snd (writeOutputSpecialPoints_loop e TS PR date ps s)) = workers s
   \<and> snow_poi_written (snd (writeOutputSpecialPoints_loop e TS PR date ps s)) = snow_poi_written s
   \<and> fst (writeOutputSpecialPoints_loop e TS PR date ps s) \<noteq> Aborted"
proof (induction ps arbitrary: s)
  case Nil
  then show ?case by simp
next
  case (Cons p ps)
  obtain o1 s1 where w: "write_SMET e s p = (o1, s1)" by (cases "write_SMET e s p") auto
  have s1: "frame s1 = frame s" "steps_started s1 = steps_started s" "workers s1 = workers s"
    "o1 \<noteq> Aborted"
    using frame_write_SMET [of e s p] steps_write_SMET [of e s p] workers_write_SMET [of e s p]
      write_SMET_outcome [of e s p] unfolding w by simp_all
  have sp: "snow_poi_written s1 = snow_poi_written s"
    using w by (auto simp: write_SMET_def Let_def emit_def split: if_splits)
  show ?case
  proof (cases o1)
    case Returned
    then show ?thesis using w s1 sp Cons.IH by (simp add: Let_def)
  next
    case (Thrown ex)
    then show ?thesis using w s1 sp by simp
  next
    case Aborted
    then show ?thesis using s1 by simp
  qed
qed


lemma quiet_refl [simp]: "quiet s s"
  by (simp add: quiet_def)

lemma quiet_trans: "quiet s s1 \<Longrightarrow> quiet s1 s2 \<Longrightarrow> quiet s s2"
  by (auto simp: quiet_def)

lemma quiet_emit: "TimerRestart \<notin> set es \<Longrightarrow> quiet s (emit es s)"
  by (simp add: quiet_def)

lemma quiet_steps_started: "quiet s s' \<Longrightarrow> steps_started s' = steps_started s"
  by (auto simp: quiet_def steps_started_def)


lemma quiet_frame: "quiet s s' \<Longrightarrow> frame s' = frame s"
  by (simp add: quiet_def)

lemma quiet_getGrid: "quiet s (snd (getGrid e s param))"
  using getGrid_state [of e s param] quiet_emit [of "[NotAvailable param]" s] by auto

lemma quiet_write_SMET: "quiet s (snd (write_SMET e s p))"
  by (simp add: write_SMET_def Let_def quiet_emit)

lemma wosp_loop_quiet:
  "quiet s (snd (writeOutputSpecialPoints_loop e TS PR date ps s))"
proof (induction ps arbitrary: s)
  case Nil
  then show ?case by simp
next
  case (Cons p ps)
  obtain o1 s1 where w: "write_SMET e s p = (o1, s1)" by (cases "write_SMET e s p") auto
  have q1: "quiet s s1" using quiet_write_SMET [of s e p] w by simp
  let ?s2 = "if TS then emit [TimeSeries p] s1 else s1"
  let ?s3 = "if PR then emit [Profile date p] ?s2 else ?s2"
  have q2: "quiet s1 ?s2" by (simp add: quiet_emit)
  have q3: "quiet ?s2 ?s3" using quiet_emit [of "[Profile date p]" ?s2] by simp
  have q: "quiet s ?s3" using q1 q2 q3 quiet_trans by blast
  have q4: "quiet s (snd (writeOutputSpecialPoints_loop e TS PR date ps ?s3))"
    using q Cons.IH [of ?s3] quiet_trans by blast
  show ?case
    using w q1 q4 by (cases o1) (simp_all add: Let_def)
qed

lemma quiet_wosp_loop: "quiet s (snd (writeOutputSpecialPoints_loop e TS PR date ps s))"
  by (rule wosp_loop_quiet)

lemma quiet_wosp: "quiet s (snd (writeOutputSpecialPoints e s date ps))"
  by (simp add: writeOutputSpecialPoints_def Let_def quiet_wosp_loop)

lemma wosp_not_aborted: "fst (writeOutputSpecialPoints e s date ps) \<noteq> Aborted"
  unfolding writeOutputSpecialPoints_def Let_def using wosp_loop_props by blast

lemma count_map_SnowCover [simp]: "TimerRestart \<notin> set (map (SnowCover date) ps)"
  by auto

lemma quiet_writeSnowCover: "quiet s (writeSnowCover s date ps)"
  unfolding writeSnowCover_def by (rule quiet_emit) auto

lemma quiet_snow_poi_written: "quiet s (s\<lparr>snow_poi_written := b\<rparr>)"
  by (simp add: quiet_def frame_def)

lemma quiet_clearSpecialPointsData: "quiet s (clearSpecialPointsData e s)"
  by (simp add: quiet_def frame_def clearSpecialPointsData_def)

lemma write_received_props:
  "quiet s (snd (write_received e is s)) \<and> fst (write_received e is s) \<noteq> Aborted"
proof (induction "is" arbitrary: s)
  case Nil
  then show ?case by simp
next
  case (Cons ii rest)
  show ?case
  proof (cases "ii = master_rank e")
    case True
    then show ?thesis using Cons.IH by simp
  next
    case False
    obtain o1 s1 where w: "writeOutputSpecialPoints e s (nextStepTimestamp s) (receive e ii) = (o1, s1)"
      by (cases "writeOutputSpecialPoints e s (nextStepTimestamp s) (receive e ii)") auto
    have q1: "quiet s s1" "o1 \<noteq> Aborted"
      using quiet_wosp [of s e "nextStepTimestamp s" "receive e ii"]
        wosp_not_aborted [of e s "nextStepTimestamp s" "receive e ii"] unfolding w by simp_all
    let ?s2 = "if \<not> snow_write s1 \<and> \<not> snow_poi_written s1
                then writeSnowCover s1 (nextStepTimestamp s1) (receive e ii) else s1"
    have q2: "quiet s ?s2"
      using q1 quiet_writeSnowCover [of s1] by (auto intro: quiet_trans)
    show ?thesis
    proof (cases o1)
      case Returned
      then show ?thesis
        using False w q2 Cons.IH [of ?s2] by (auto simp: Let_def intro: quiet_trans)
    next
      case (Thrown ex)
      then show ?thesis using False w q1 by (simp add: Let_def)
    next
      case Aborted
      then show ?thesis using q1 by simp
    qed
  qed
qed


lemma write_special_points_props:
  "quiet s (snd (write_special_points e s)) \<and> fst (write_special_points e s) \<noteq> Aborted"
proof -
  let ?px = "concat (map (worker_getOutputSpecialPoints e) (workers s))"
  obtain o1 s1 where w: "writeOutputSpecialPoints e s (nextStepTimestamp s) ?px = (o1, s1)"
    by (cases "writeOutputSpecialPoints e s (nextStepTimestamp s) ?px") auto
  have q1: "quiet s s1" "o1 \<noteq> Aborted"
    using quiet_wosp [of s e "nextStepTimestamp s" ?px]
      wosp_not_aborted [of e s "nextStepTimestamp s" ?px] unfolding w by simp_all
  let ?s2 = "if \<not> snow_write s1 \<and> \<not> snow_poi_written s1
              then writeSnowCover s1 (nextStepTimestamp s1) ?px else s1"
  have q2: "quiet s ?s2"
    using q1 quiet_writeSnowCover [of s1] by (auto intro: quiet_trans)
  obtain o3 s3 where r: "write_received e [0 ..< mpi_size e] ?s2 = (o3, s3)"
    by (cases "write_received e [0 ..< mpi_size e] ?s2") auto
  have q3: "quiet s s3" "o3 \<noteq> Aborted"
    using write_received_props [of ?s2 e "[0 ..< mpi_size e]"] q2 unfolding r
    by (auto intro: quiet_trans)
  have a: "quiet s (clearSpecialPointsData e (?s2\<lparr>snow_poi_written := True\<rparr>))"
    using q2 quiet_snow_poi_written quiet_clearSpecialPointsData quiet_trans by blast
  have b: "quiet s (clearSpecialPointsData e (s3\<lparr>snow_poi_written := True\<rparr>))"
    using q3 quiet_snow_poi_written quiet_clearSpecialPointsData quiet_trans by blast
  have c: "quiet s (clearSpecialPointsData e (emit [Send ?px (master_rank e)] s))"
    using quiet_emit [of "[Send ?px (master_rank e)]" s] quiet_clearSpecialPointsData quiet_trans
    by fastforce
  have d: "quiet s (clearSpecialPointsData e s1)"
    using q1 quiet_clearSpecialPointsData quiet_trans by blast
  show ?thesis
  proof (cases o1)
    case Returned
    show ?thesis
    proof (cases o3)
      case Returned
      then show ?thesis
        using \<open>o1 = Returned\<close> w r a b c d q1 q3
        by (auto simp: write_special_points_def Let_def)
    next
      case (Thrown ex)
      then show ?thesis
        using \<open>o1 = Returned\<close> w r a b c d q1 q3
        by (auto simp: write_special_points_def Let_def)
    next
      case Aborted
      then show ?thesis using q3 by simp
    qed
  next
    case (Thrown ex)
    then show ?thesis
      using w c q1 by (auto simp: write_special_points_def Let_def)
  next
    case Aborted
    then show ?thesis using q1 by simp
  qed
qed

lemma quiet_writeOutput_iter: "quiet s (writeOutput_iter e date s name)"
proof -
  obtain g s1 where g: "getGrid e s (SnGrids_getParameterIndex e name) = (g, s1)"
    by (cases "getGrid e s (SnGrids_getParameterIndex e name)") auto
  have q: "quiet s s1" using quiet_getGrid [of s e "SnGrids_getParameterIndex e name"] g by simp
  show ?thesis
    unfolding writeOutput_iter_def g using q
    by (auto simp: Let_def split: option.splits intro!: quiet_trans [OF q] quiet_emit)
qed

lemma quiet_foldl:
  assumes "\<And>s x. quiet s (f s x)"
  shows "quiet s (foldl f s xs)"
proof (induction xs arbitrary: s)
  case Nil
  then show ?case by simp
next
  case (Cons x xs)
  show ?case using assms [of s x] Cons [of "f s x"] by (auto intro: quiet_trans)
qed

lemma quiet_writeOutput: "quiet s (writeOutput e s date)"
proof -
  let ?s1 = "if do_grid_output e s date then foldl (writeOutput_iter e date) s (output_grids s) else s"
  have q: "quiet s ?s1"
    using quiet_foldl [of "writeOutput_iter e date" s "output_grids s"] quiet_writeOutput_iter
    by auto
  have "quiet ?s1 (emit [RunoffOutput date (psum ?s1) (ta ?s1)] ?s1)"
    by (rule quiet_emit) simp
  with q show ?thesis
    unfolding writeOutput_def Let_def by (auto intro: quiet_trans)
qed

lemma quiet_exchange_drift: "quiet s (exchange_drift e s)"
proof -
  obtain g1 s1 where 1: "getGrid e s HS = (g1, s1)" by (cases "getGrid e s HS") auto
  obtain g2 s2 where 2: "getGrid e s1 SP = (g2, s2)" by (cases "getGrid e s1 SP") auto
  obtain g3 s3 where 3: "getGrid e s2 RG = (g3, s3)" by (cases "getGrid e s2 RG") auto
  obtain g4 s4 where 4: "getGrid e s3 N3 = (g4, s4)" by (cases "getGrid e s3 N3") auto
  obtain g5 s5 where 5: "getGrid e s4 RB = (g5, s5)" by (cases "getGrid e s4 RB") auto
  have "quiet s s1" using quiet_getGrid [of s e HS] 1 by simp
  moreover have "quiet s1 s2" using quiet_getGrid [of s1 e SP] 2 by simp
  moreover have "quiet s2 s3" using quiet_getGrid [of s2 e RG] 3 by simp
  moreover have "quiet s3 s4" using quiet_getGrid [of s3 e N3] 4 by simp
  moreover have "quiet s4 s5" using quiet_getGrid [of s4 e RB] 5 by simp
  moreover have "quiet s5 (emit [SnowSurfaceData g1 g2 g3 g4 g5] s5)" by (rule quiet_emit) simp
  ultimately have "quiet s (emit [SnowSurfaceData g1 g2 g3 g4 g5] s5)"
    using quiet_trans by blast
  then show ?thesis by (simp only: exchange_drift_def 1 2 3 4 5 prod.case)
qed

lemma quiet_exchange_eb: "quiet s (exchange_eb e s)"
proof -
  obtain g1 s1 where 1: "getGrid e s TOP_ALB = (g1, s1)" by (cases "getGrid e s TOP_ALB") auto
  have "quiet s s1" using quiet_getGrid [of s e TOP_ALB] 1 by simp
  moreover have "quiet s1 (emit [Albedo g1] s1)" by (rule quiet_emit) simp
  ultimately have "quiet s (emit [Albedo g1] s1)" using quiet_trans by blast
  then show ?thesis by (simp only: exchange_eb_def 1 prod.case)
qed


lemma list_update_map_drop:
  "n < length ws \<Longrightarrow> (map f [0 ..< n] @ drop n ws)[n := f n] = map f [0 ..< Suc n] @ drop (Suc n) ws"
  by (simp add: list_update_append Cons_nth_drop_Suc [symmetric])

lemma nth_map_drop: "n < length ws \<Longrightarrow> (map f [0 ..< n] @ drop n ws) ! n = ws ! n"
  by (simp add: nth_append)

lemma runModel_loop:
  "n \<le> length (workers s) \<Longrightarrow>
   foldl (runModel_iter e) (s, 0) [0 ..< n] =
     (s\<lparr>workers := map (\<lambda>ii. fst (runModel_call e s ii)) [0 ..< n] @ drop n (workers s),
        trace := trace s @ model_messages e s n\<rparr>,
      length (failed_workers e s n))"
proof (induction n)
  case 0
  then show ?case by (simp add: model_messages_def failed_workers_def)
next
  case (Suc n)
  let ?sn = "s\<lparr>workers := map (\<lambda>ii. fst (runModel_call e s ii)) [0 ..< n] @ drop n (workers s),
        trace := trace s @ model_messages e s n\<rparr>"
  have IH: "foldl (runModel_iter e) (s, 0) [0 ..< n] = (?sn, length (failed_workers e s n))"
    using Suc by simp
  have n: "n < length (workers s)" using Suc.prems by simp
  have call: "runModel_call e ?sn n = runModel_call e s n"
    using nth_map_drop [OF n] by (simp add: runModel_call_def worker_slices_def)
  obtain w r where wr: "runModel_call e s n = (w, r)" by (cases "runModel_call e s n") auto
  have upd: "(workers ?sn)[n := w] = map (\<lambda>ii. fst (runModel_call e s ii)) [0 ..< Suc n] @ drop (Suc n) (workers s)"
    using list_update_map_drop [OF n, of "\<lambda>ii. fst (runModel_call e s ii)"] wr by simp
  have step: "runModel_iter e (?sn, length (failed_workers e s n)) n =
     (s\<lparr>workers := map (\<lambda>ii. fst (runModel_call e s ii)) [0 ..< Suc n] @ drop (Suc n) (workers s),
        trace := trace s @ model_messages e s (Suc n)\<rparr>,
      length (failed_workers e s (Suc n)))"
    unfolding runModel_iter_def prod.case call wr upd
    by (cases r) (simp_all add: model_messages_def failed_workers_def wr emit_def)
  show ?case
    by (simp only: upt_Suc_append [OF le0] foldl_append foldl.simps IH step)
qed

section \<open>Properties of the grid queries\<close>

declare getGrid.simps [simp del]

lemma getGrid_not_forcing: "\<not> is_forcing param \<Longrightarrow> getGrid e s param = getGrid_workers e s param"
  by (cases param) (simp_all add: is_forcing_def getGrid.simps)

lemma getGrid_forcing:
  "getGrid e s TA = (ta s, s)" "getGrid e s RH = (rh s, s)" "getGrid e s VW = (vw s, s)"
  "getGrid e s PSUM = (psum s, s)" "getGrid e s PSUM_PH = (psum_ph s, s)"
  "getGrid e s ISWR = (shortwave s, s)" "getGrid e s ILWR = (longwave s, s)"
  by (simp_all add: getGrid.simps)

lemma getGrid_iter_errCount:
  "snd (foldl (getGrid_iter e s param) (g, k) [0 ..< n])
    = k + length (filter (\<lambda>ii. empty_grid (worker_getGrid e (workers s ! ii) param)) [0 ..< n])"
proof (induction n)
  case 0
  then show ?case by simp
next
  case (Suc n)
  obtain g' k' where f: "foldl (getGrid_iter e s param) (g, k) [0 ..< n] = (g', k')"
    by (cases "foldl (getGrid_iter e s param) (g, k) [0 ..< n]") auto
  with Suc have k': "k' = k + length (filter (\<lambda>ii. empty_grid (worker_getGrid e (workers s ! ii) param)) [0 ..< n])"
    by simp
  have step: "\<And>g k. snd (getGrid_iter e s param (g, k) n)
      = k + (if empty_grid (worker_getGrid e (workers s ! n) param) then 1 else 0)"
    by (simp add: getGrid_iter_def Let_def)
  show ?case
    by (simp add: f step k')
qed

lemma errCount_positive:
  assumes "ii < length (workers s)" "empty_grid (worker_getGrid e (workers s ! ii) param)"
  shows "0 < snd (foldl (getGrid_iter e s param) (g, 0) [0 ..< length (workers s)])"
proof -
  have "ii \<in> set (filter (\<lambda>ii. empty_grid (worker_getGrid e (workers s ! ii) param)) [0 ..< length (workers s)])"
    using assms by simp
  then have "0 < length (filter (\<lambda>ii. empty_grid (worker_getGrid e (workers s ! ii) param)) [0 ..< length (workers s)])"
    by (metis length_pos_if_in_set)
  then show ?thesis by (simp add: getGrid_iter_errCount)
qed

lemma errCount_zero:
  assumes "\<forall>ii < length (workers s). \<not> empty_grid (worker_getGrid e (workers s ! ii) param)"
  shows "snd (foldl (getGrid_iter e s param) (g, 0) [0 ..< length (workers s)]) = 0"
  using assms by (simp add: getGrid_iter_errCount)

lemma Grid2DObject_init_props:
  "llcorner (Grid2DObject_init g v) = llcorner g" "cellsize (Grid2DObject_init g v) = cellsize g"
  "nx (grid2D (Grid2DObject_init g v)) = nx (grid2D g)"
  "ny (grid2D (Grid2DObject_init g v)) = ny (grid2D g)"
  "wf_array (grid2D (Grid2DObject_init g v))"
  "x < nx (grid2D g) \<Longrightarrow> y < ny (grid2D g) \<Longrightarrow> get_cell (grid2D (Grid2DObject_init g v)) x y = v"
  by (simp_all add: Grid2DObject_init_def wf_array_def get_cell_def cell_index_less)

lemma splice_inv:
  assumes inside: "\<forall>ii < n. worker_startx s ! ii + worker_deltax s ! ii \<le> nx (grid2D (dem s))"
    and rows: "dimy s \<le> ny (grid2D (dem s))"
    and avail: "\<forall>ii < n. \<not> empty_grid (worker_getGrid e (workers s ! ii) param)"
    and disjoint: "\<forall>ii < n. \<forall>jj < n. ii \<noteq> jj \<longrightarrow> (\<forall>x. \<not> (owns s ii x \<and> owns s jj x))"
  shows "case foldl (getGrid_iter e s param) (Grid2DObject_init (dem s) 0, 0) [0 ..< n] of
    (g, k) \<Rightarrow>
      llcorner g = llcorner (dem s) \<and> cellsize g = cellsize (dem s)
      \<and> nx (grid2D g) = nx (grid2D (dem s)) \<and> ny (grid2D g) = ny (grid2D (dem s))
      \<and> wf_array (grid2D g)
      \<and> (\<forall>x y. x < nx (grid2D (dem s)) \<longrightarrow> y < ny (grid2D (dem s)) \<longrightarrow>
           (\<forall>ii < n. owns s ii x \<and> y < dimy s \<longrightarrow>
              get_cell (grid2D g) x y
                = get_cell (grid2D (worker_getGrid e (workers s ! ii) param))
                    (x - worker_startx s ! ii) y)
           \<and> ((\<forall>ii < n. \<not> (owns s ii x \<and> y < dimy s)) \<longrightarrow> get_cell (grid2D g) x y = 0))"
  using inside avail disjoint
proof (induction n)
  case 0
  then show ?case by (simp add: Grid2DObject_init_props)
next
  case (Suc n)
  obtain g k where f: "foldl (getGrid_iter e s param) (Grid2DObject_init (dem s) 0, 0) [0 ..< n] = (g, k)"
    by (cases "foldl (getGrid_iter e s param) (Grid2DObject_init (dem s) 0, 0) [0 ..< n]") auto
  let ?D = "grid2D (dem s)"
  let ?src = "grid2D (worker_getGrid e (workers s ! n) param)"
  have IH: "llcorner g = llcorner (dem s)" "cellsize g = cellsize (dem s)"
    "nx (grid2D g) = nx ?D" "ny (grid2D g) = ny ?D" "wf_array (grid2D g)"
    "\<And>x y ii. x < nx ?D \<Longrightarrow> y < ny ?D \<Longrightarrow> ii < n \<Longrightarrow> owns s ii x \<Longrightarrow> y < dimy s \<Longrightarrow>
        get_cell (grid2D g) x y
          = get_cell (grid2D (worker_getGrid e (workers s ! ii) param)) (x - worker_startx s ! ii) y"
    "\<And>x y. x < nx ?D \<Longrightarrow> y < ny ?D \<Longrightarrow> \<forall>ii < n. \<not> (owns s ii x \<and> y < dimy s) \<Longrightarrow>
        get_cell (grid2D g) x y = 0"
    using Suc.IH Suc.prems unfolding f by simp_all
  let ?a = "fill (grid2D g) ?src (worker_startx s ! n) 0 (worker_deltax s ! n) (dimy s)"
  have step: "foldl (getGrid_iter e s param) (Grid2DObject_init (dem s) 0, 0) [0 ..< Suc n]
    = (g\<lparr>grid2D := ?a\<rparr>, k)"
    using Suc.prems(2) by (simp add: f getGrid_iter_def Let_def)
  have fp: "nx ?a = nx (grid2D g) \<and> ny ?a = ny (grid2D g) \<and> wf_array ?a
    \<and> (\<forall>x y. x < nx (grid2D g) \<longrightarrow> y < ny (grid2D g) \<longrightarrow>
         get_cell ?a x y =
           (if 0 \<le> y \<and> y < 0 + dimy s \<and> worker_startx s ! n \<le> x
                \<and> x < worker_startx s ! n + worker_deltax s ! n
            then get_cell ?src (x - worker_startx s ! n) (y - 0) else get_cell (grid2D g) x y))"
    by (rule fill_props) (use IH Suc.prems(1) rows in simp_all)
  have cellA: "\<And>x y. x < nx ?D \<Longrightarrow> y < ny ?D \<Longrightarrow> get_cell ?a x y =
      (if owns s n x \<and> y < dimy s then get_cell ?src (x - worker_startx s ! n) y
       else get_cell (grid2D g) x y)"
    using fp IH(3,4) by (auto simp: owns_def)
  have own: "\<And>x y ii. x < nx ?D \<Longrightarrow> y < ny ?D \<Longrightarrow> ii < Suc n \<Longrightarrow> owns s ii x \<Longrightarrow> y < dimy s \<Longrightarrow>
      get_cell ?a x y
        = get_cell (grid2D (worker_getGrid e (workers s ! ii) param)) (x - worker_startx s ! ii) y"
  proof -
    fix x y ii
    assume a: "x < nx ?D" "y < ny ?D" "ii < Suc n" "owns s ii x" "y < dimy s"
    show "get_cell ?a x y
        = get_cell (grid2D (worker_getGrid e (workers s ! ii) param)) (x - worker_startx s ! ii) y"
    proof (cases "ii = n")
      case True
      then show ?thesis using cellA [OF a(1,2)] a(4,5) by simp
    next
      case False
      then have lt: "ii < n" using a(3) by simp
      have "\<not> owns s n x" using Suc.prems(3) a(3,4) False by (metis lessI)
      then show ?thesis using cellA [OF a(1,2)] IH(6) [OF a(1,2) lt a(4,5)] by simp
    qed
  qed
  have none: "\<And>x y. x < nx ?D \<Longrightarrow> y < ny ?D \<Longrightarrow> \<forall>ii < Suc n. \<not> (owns s ii x \<and> y < dimy s) \<Longrightarrow>
      get_cell ?a x y = 0"
  proof -
    fix x y
    assume a: "x < nx ?D" "y < ny ?D" "\<forall>ii < Suc n. \<not> (owns s ii x \<and> y < dimy s)"
    then have "\<not> (owns s n x \<and> y < dimy s)" "\<forall>ii < n. \<not> (owns s ii x \<and> y < dimy s)"
      by (auto simp: less_Suc_eq)
    then show "get_cell ?a x y = 0" using cellA [OF a(1,2)] IH(7) [OF a(1,2)] by auto
  qed
  show ?case
    unfolding step using IH(1,2,3,4) fp own none by simp
qed


lemmas ex_defs = ex_env_def ex_state_def ex_worker_def const_grid_def poi_def

lemma ex_spliced:
  "spliced ex_env ex_state HS =
     \<lparr>grid2D = \<lparr>nx = 8, ny = 2, vecData = [0, 0, 1, 1, 2, 2, 3, 3, 0, 0, 1, 1, 2, 2, 3, 3]\<rparr>,
      cellsize = 1, llcorner = poi 0 0\<rparr>"
  by (simp add: spliced_def ex_defs getGrid_iter_def Grid2DObject_init_def fill_def fill_row_def
      set_cell_def get_cell_def empty_grid_def Let_def upt_rec numeral_nat)

text \<open>
  Claim C5. For a parameter that is not one of the stored forcing grids and that every
  worker has, \<^verbatim>\<open>getGrid\<close> returns the result of the cross-process reduction applied to
  the grid assembled on this process, and leaves the coordinator as it was. The
  assembled grid has the geolocation and the dimensions of the DEM; when the column
  ranges of the workers lie inside the domain and do not overlap, each of its cells in
  a column owned by a worker holds the cell of that worker's sub-grid at the column
  counted from the worker's offset, and every cell in a column that no worker owns
  holds zero. On a single process the reduction is the identity, as in the example
  after the theorem, where each column holds the number of its worker.
\<close>

theorem getGrid_aggregation:
  assumes "\<not> is_forcing param"
    and "\<forall>ii < length (workers s). \<not> empty_grid (worker_getGrid e (workers s ! ii) param)"
    and "\<forall>ii < length (workers s).
           worker_startx s ! ii + worker_deltax s ! ii \<le> nx (grid2D (dem s))"
    and "dimy s = ny (grid2D (dem s))"
    and "\<forall>ii < length (workers s). \<forall>jj < length (workers s).
           ii \<noteq> jj \<longrightarrow> (\<forall>x. \<not> (owns s ii x \<and> owns s jj x))"
    and "length (worker_startx s) = length (workers s)"
    and "length (worker_deltax s) = length (workers s)"
  shows "getGrid e s param = (allreduce_sum e (spliced e s param), s)
    \<and> llcorner (spliced e s param) = llcorner (dem s)
    \<and> cellsize (spliced e s param) = cellsize (dem s)
    \<and> nx (grid2D (spliced e s param)) = nx (grid2D (dem s))
    \<and> ny (grid2D (spliced e s param)) = ny (grid2D (dem s))
    \<and> (\<forall>ii x y. ii < length (workers s) \<longrightarrow> owns s ii x \<longrightarrow> y < dimy s \<longrightarrow>
          get_cell (grid2D (spliced e s param)) x y
            = get_cell (grid2D (worker_getGrid e (workers s ! ii) param))
                (x - worker_startx s ! ii) y)
    \<and> (\<forall>x y. x < nx (grid2D (dem s)) \<longrightarrow> y < dimy s \<longrightarrow>
          (\<forall>ii < length (workers s). \<not> owns s ii x) \<longrightarrow>
          get_cell (grid2D (spliced e s param)) x y = 0)"
proof -
  obtain g k where f: "foldl (getGrid_iter e s param) (Grid2DObject_init (dem s) 0, 0)
      [0 ..< length (workers s)] = (g, k)"
    by (cases "foldl (getGrid_iter e s param) (Grid2DObject_init (dem s) 0, 0)
      [0 ..< length (workers s)]") auto
  have k: "k = 0" using errCount_zero [OF assms(2), of "Grid2DObject_init (dem s) 0"] f by simp
  have g: "spliced e s param = g" by (simp add: spliced_def f)
  have inv: "llcorner g = llcorner (dem s) \<and> cellsize g = cellsize (dem s)
      \<and> nx (grid2D g) = nx (grid2D (dem s)) \<and> ny (grid2D g) = ny (grid2D (dem s))
      \<and> wf_array (grid2D g)
      \<and> (\<forall>x y. x < nx (grid2D (dem s)) \<longrightarrow> y < ny (grid2D (dem s)) \<longrightarrow>
           (\<forall>ii < length (workers s). owns s ii x \<and> y < dimy s \<longrightarrow>
              get_cell (grid2D g) x y
                = get_cell (grid2D (worker_getGrid e (workers s ! ii) param))
                    (x - worker_startx s ! ii) y)
           \<and> ((\<forall>ii < length (workers s). \<not> (owns s ii x \<and> y < dimy s))
                \<longrightarrow> get_cell (grid2D g) x y = 0))"
    using splice_inv [of "length (workers s)" s e param] assms(2,3,4,5) unfolding f by simp
  have ret: "getGrid e s param = (allreduce_sum e g, s)"
    using assms(1) by (simp add: getGrid_not_forcing getGrid_workers_def f k Let_def)
  have own: "\<And>ii x y. ii < length (workers s) \<Longrightarrow> owns s ii x \<Longrightarrow> y < dimy s \<Longrightarrow>
          get_cell (grid2D g) x y
            = get_cell (grid2D (worker_getGrid e (workers s ! ii) param))
                (x - worker_startx s ! ii) y"
  proof -
    fix ii x y
    assume a: "ii < length (workers s)" "owns s ii x" "y < dimy s"
    have "x < nx (grid2D (dem s))" using a(1,2) assms(3) by (fastforce simp: owns_def)
    moreover have "y < ny (grid2D (dem s))" using a(3) assms(4) by simp
    ultimately show "get_cell (grid2D g) x y
            = get_cell (grid2D (worker_getGrid e (workers s ! ii) param))
                (x - worker_startx s ! ii) y"
      using inv a by blast
  qed
  have none: "\<And>x y. x < nx (grid2D (dem s)) \<Longrightarrow> y < dimy s \<Longrightarrow>
          \<forall>ii < length (workers s). \<not> owns s ii x \<Longrightarrow> get_cell (grid2D g) x y = 0"
    using inv assms(4) by simp
  show ?thesis
    unfolding g using ret inv own none by blast
qed

theorem getGrid_aggregation_witness:
  "\<not> is_forcing HS
   \<and> dimy ex_state = ny (grid2D (dem ex_state))
   \<and> owns ex_state 2 5
   \<and> getGrid ex_env ex_state HS =
       (\<lparr>grid2D = \<lparr>nx = 8, ny = 2,
                    vecData = [0, 0, 1, 1, 2, 2, 3, 3, 0, 0, 1, 1, 2, 2, 3, 3]\<rparr>,
         cellsize = 1, llcorner = poi 0 0\<rparr>, ex_state)
   \<and> get_cell (grid2D (fst (getGrid ex_env ex_state HS))) 5 1 = 2"
proof -
  have h1: "\<not> is_forcing HS" by (simp add: is_forcing_def)
  have h2: "\<forall>ii < length (workers ex_state).
         \<not> empty_grid (worker_getGrid ex_env (workers ex_state ! ii) HS)"
    by (simp add: ex_defs empty_grid_def)
  have h3: "\<forall>ii < length (workers ex_state).
         worker_startx ex_state ! ii + worker_deltax ex_state ! ii \<le> nx (grid2D (dem ex_state))"
    by (simp add: ex_defs All_less_Suc numeral_nat)
  have h4: "dimy ex_state = ny (grid2D (dem ex_state))" by (simp add: ex_defs)
  have h5: "\<forall>ii < length (workers ex_state). \<forall>jj < length (workers ex_state).
         ii \<noteq> jj \<longrightarrow> (\<forall>x. \<not> (owns ex_state ii x \<and> owns ex_state jj x))"
    by (simp add: ex_defs owns_def All_less_Suc numeral_nat)
  have all: "allreduce_sum ex_env (spliced ex_env ex_state HS) = spliced ex_env ex_state HS"
    by (simp add: ex_env_def)
  have own: "owns ex_state 2 5" by (simp add: ex_defs owns_def)
  have h6: "length (worker_startx ex_state) = length (workers ex_state)"
    "length (worker_deltax ex_state) = length (workers ex_state)"
    by (simp_all add: ex_state_def)
  note agg = getGrid_aggregation [OF h1 h2 h3 h4 h5 h6]
  have len: "2 < length (workers ex_state)" "1 < dimy ex_state" by (simp_all add: ex_state_def)
  have r1: "getGrid ex_env ex_state HS = (spliced ex_env ex_state HS, ex_state)"
    using agg all by simp
  have r2: "get_cell (grid2D (spliced ex_env ex_state HS)) 5 1
      = get_cell (grid2D (worker_getGrid ex_env (workers ex_state ! 2) HS))
          (5 - worker_startx ex_state ! 2) 1"
    using agg own len by blast
  have c: "get_cell (grid2D (worker_getGrid ex_env (workers ex_state ! 2) HS))
          (5 - worker_startx ex_state ! 2) 1 = 2"
    by (simp add: ex_defs get_cell_def)
  show ?thesis
    using h1 h4 own r1 r2 c by (simp add: ex_spliced)
qed

text \<open>
  Claim C6. When a worker answers the query for a parameter that is not one of the
  stored forcing grids with an empty grid, \<^verbatim>\<open>getGrid\<close> returns an empty grid, without
  any cell, and the only effect of the call is the warning that the parameter was not
  available in the workers. The call returns: \<^verbatim>\<open>getGrid\<close> has no throwing path.
\<close>

theorem getGrid_unavailable:
  assumes "\<not> is_forcing param" "ii < length (workers s)"
    "empty_grid (worker_getGrid e (workers s ! ii) param)"
  shows "empty_grid (fst (getGrid e s param))
    \<and> grid2D (fst (getGrid e s param)) = \<lparr>nx = 0, ny = 0, vecData = []\<rparr>
    \<and> snd (getGrid e s param) = s\<lparr>trace := trace s @ [NotAvailable param]\<rparr>"
proof -
  obtain g k where f: "foldl (getGrid_iter e s param) (Grid2DObject_init (dem s) 0, 0)
      [0 ..< length (workers s)] = (g, k)"
    by (cases "foldl (getGrid_iter e s param) (Grid2DObject_init (dem s) 0, 0)
      [0 ..< length (workers s)]") auto
  have "0 < k" using errCount_positive [OF assms(2,3), of "Grid2DObject_init (dem s) 0"] f by simp
  then show ?thesis
    using assms(1) by (simp add: getGrid_not_forcing getGrid_workers_def f Let_def empty_grid_def clear_grid_def emit_def)
qed

theorem getGrid_unavailable_witness:
  "\<not> is_forcing GLACIER \<and> 1 < length (workers ex_state)
   \<and> empty_grid (worker_getGrid ex_env (workers ex_state ! 1) GLACIER)
   \<and> getGrid ex_env ex_state GLACIER =
       (\<lparr>grid2D = \<lparr>nx = 0, ny = 0, vecData = []\<rparr>, cellsize = 1, llcorner = poi 0 0\<rparr>,
        ex_state\<lparr>trace := [NotAvailable GLACIER]\<rparr>)"
proof -
  have h1: "\<not> is_forcing GLACIER" by (simp add: is_forcing_def)
  have h2: "1 < length (workers ex_state)" by (simp add: ex_state_def)
  have h3: "empty_grid (worker_getGrid ex_env (workers ex_state ! 1) GLACIER)"
    by (simp add: ex_defs empty_grid_def)
  have ev: "getGrid ex_env ex_state GLACIER =
       (\<lparr>grid2D = \<lparr>nx = 0, ny = 0, vecData = []\<rparr>, cellsize = 1, llcorner = poi 0 0\<rparr>,
        ex_state\<lparr>trace := [NotAvailable GLACIER]\<rparr>)"
    by (simp add: getGrid.simps getGrid_workers_def ex_defs getGrid_iter_def
        Grid2DObject_init_def fill_def fill_row_def set_cell_def get_cell_def empty_grid_def
        clear_grid_def emit_def Let_def upt_rec numeral_nat)
  from getGrid_unavailable [OF h1 h2 h3] ev
  have "getGrid ex_env ex_state GLACIER =
       (\<lparr>grid2D = \<lparr>nx = 0, ny = 0, vecData = []\<rparr>, cellsize = 1, llcorner = poi 0 0\<rparr>,
        ex_state\<lparr>trace := [NotAvailable GLACIER]\<rparr>)"
    by simp
  with h1 h2 h3 show ?thesis by simp
qed

text \<open>
  Claim C10. A call of \<^verbatim>\<open>getGrid\<close>, for any parameter, leaves the stored forcing grids,
  the four readiness flags, the workers with their offsets and widths, and the
  timestamp of the next step as they were; besides what it may print, it changes
  nothing at all. (The query of a worker is a function of the worker's state.)
\<close>

theorem getGrid_read_only:
  "mns (snd (getGrid e s param)) = mns s
   \<and> shortwave (snd (getGrid e s param)) = shortwave s
   \<and> longwave (snd (getGrid e s param)) = longwave s
   \<and> diffuse (snd (getGrid e s param)) = diffuse s
   \<and> psum (snd (getGrid e s param)) = psum s
   \<and> psum_ph (snd (getGrid e s param)) = psum_ph s
   \<and> vw (snd (getGrid e s param)) = vw s
   \<and> rh (snd (getGrid e s param)) = rh s
   \<and> ta (snd (getGrid e s param)) = ta s
   \<and> dataMeteo2D (snd (getGrid e s param)) = dataMeteo2D s
   \<and> dataRadiation (snd (getGrid e s param)) = dataRadiation s
   \<and> dataSnowDrift (snd (getGrid e s param)) = dataSnowDrift s
   \<and> dataDa (snd (getGrid e s param)) = dataDa s
   \<and> workers (snd (getGrid e s param)) = workers s
   \<and> worker_startx (snd (getGrid e s param)) = worker_startx s
   \<and> worker_deltax (snd (getGrid e s param)) = worker_deltax s
   \<and> nextStepTimestamp (snd (getGrid e s param)) = nextStepTimestamp s
   \<and> (snd (getGrid e s param))\<lparr>trace := trace s\<rparr> = s"
  using getGrid_state [of e s param] by (auto simp: emit_def)

theorem getGrid_read_only_witness:
  "psum (snd (getGrid ex_env ex_state GLACIER)) = psum ex_state
   \<and> dataMeteo2D (snd (getGrid ex_env ex_state GLACIER)) = dataMeteo2D ex_state
   \<and> worker_startx (snd (getGrid ex_env ex_state GLACIER)) = [0, 2, 4, 6]
   \<and> nextStepTimestamp (snd (getGrid ex_env ex_state GLACIER)) = 100
   \<and> (snd (getGrid ex_env ex_state GLACIER))\<lparr>trace := []\<rparr> = ex_state"
  using getGrid_read_only [of ex_env ex_state GLACIER]
  by (simp add: ex_state_def)

section \<open>Properties of the time step\<close>

lemma runModel_call_cong:
  "workers s' ! ii = workers s ! ii \<Longrightarrow> frame s' = frame s
    \<Longrightarrow> runModel_call e s' ii = runModel_call e s ii"
proof -
  assume w: "workers s' ! ii = workers s ! ii" and f: "frame s' = frame s"
  have "nextStepTimestamp (frame s') = nextStepTimestamp (frame s)"
    "solarElevation (frame s') = solarElevation (frame s)"
    "worker_startx (frame s') = worker_startx (frame s)"
    "worker_deltax (frame s') = worker_deltax (frame s)"
    "dimy (frame s') = dimy (frame s)"
    "psum (frame s') = psum (frame s)" "psum_ph (frame s') = psum_ph (frame s)"
    "rh (frame s') = rh (frame s)" "ta (frame s') = ta (frame s)" "vw (frame s') = vw (frame s)"
    "mns (frame s') = mns (frame s)" "shortwave (frame s') = shortwave (frame s)"
    "diffuse (frame s') = diffuse (frame s)" "longwave (frame s') = longwave (frame s)"
    using f by simp_all
  then show ?thesis
    using w by (simp add: runModel_call_def worker_slices_def frame_def)
qed

lemma run_loop:
  "foldl (runModel_iter e) (emit [TimerRestart] s, 0) [0 ..< length (workers s)]
    = (after_workers e s, length (failed_workers e s (length (workers s))))"
proof -
  let ?s = "emit [TimerRestart] s"
  have call: "\<And>ii. runModel_call e ?s ii = runModel_call e s ii"
    by (rule runModel_call_cong) simp_all
  have "foldl (runModel_iter e) (?s, 0) [0 ..< length (workers ?s)]
    = (?s\<lparr>workers := map (\<lambda>ii. fst (runModel_call e ?s ii)) [0 ..< length (workers ?s)]
              @ drop (length (workers ?s)) (workers ?s),
        trace := trace ?s @ model_messages e ?s (length (workers ?s))\<rparr>,
      length (failed_workers e ?s (length (workers ?s))))"
    by (rule runModel_loop) simp
  moreover have "\<And>W T. ?s\<lparr>workers := W, trace := T\<rparr> = s\<lparr>workers := W, trace := T\<rparr>"
    by (simp add: emit_def)
  ultimately show ?thesis
    by (simp add: call after_workers_def model_messages_def failed_workers_def)
qed

lemma after_workers_frame: "frame (after_workers e s) = frame s"
  by (simp add: after_workers_def frame_def)

lemma after_workers_steps: "steps_started (after_workers e s) = Suc (steps_started s)"
proof -
  have "TimerRestart \<notin> set (model_messages e s n)" for n
    by (auto simp: model_messages_def split: option.splits)
  then show ?thesis
    by (simp add: after_workers_def steps_started_def)
qed

lemma run_step_eq:
  "run_step e s =
     (case (if pts s \<noteq> [] then write_special_points e (after_workers e s)
            else (Returned, after_workers e s)) of
        (Thrown ex, s2) \<Rightarrow> (Thrown ex, s2)
      | (_, s2) \<Rightarrow>
          if failed_workers e s (length (workers s)) \<noteq> [] then (Aborted, s2)
          else (Returned, finish_step e s2))"
proof -
  have "pts (after_workers e s) = pts s" by (simp add: after_workers_def)
  then show ?thesis
    by (simp add: run_step_def run_loop split: prod.splits outcome.splits)
qed

lemma finish_step_props:
  "\<exists>s'. quiet s s' \<and> finish_step e s = s'\<lparr>nextStepTimestamp := nextStepTimestamp s' + timeStep s'\<rparr>"
proof -
  let ?s3 = "if drift s then exchange_drift e s else s"
  let ?s4 = "if eb ?s3 then exchange_eb e ?s3 else ?s3"
  let ?s5 = "writeOutput e ?s4 (nextStepTimestamp ?s4)"
  let ?s6 = "emit [TimerStop] ?s5"
  let ?s7 = "if master e then emit [SimulationsDone (nextStepTimestamp ?s6)] ?s6 else ?s6"
  have "quiet s ?s3" by (simp add: quiet_exchange_drift)
  moreover have "quiet ?s3 ?s4" using quiet_exchange_eb [of ?s3 e] by simp
  moreover have "quiet ?s4 ?s5" by (rule quiet_writeOutput)
  moreover have "quiet ?s5 ?s6" by (rule quiet_emit) simp
  moreover have "quiet ?s6 ?s7" using quiet_emit [of "[SimulationsDone (nextStepTimestamp ?s6)]" ?s6] by simp
  ultimately have "quiet s ?s7" using quiet_trans by blast
  moreover have "finish_step e s = ?s7\<lparr>nextStepTimestamp := nextStepTimestamp ?s7 + timeStep ?s7\<rparr>"
    by (simp only: finish_step_def Let_def)
  ultimately show ?thesis by blast
qed

lemma frame_fields:
  assumes "frame s' = frame s"
  shows "nextStepTimestamp s' = nextStepTimestamp s" "timeStep s' = timeStep s"
    "dataMeteo2D s' = dataMeteo2D s" "dataRadiation s' = dataRadiation s"
    "dataSnowDrift s' = dataSnowDrift s" "dataDa s' = dataDa s"
    "psum s' = psum s" "psum_ph s' = psum_ph s" "vw s' = vw s" "rh s' = rh s" "ta s' = ta s"
    "shortwave s' = shortwave s" "longwave s' = longwave s" "diffuse s' = diffuse s"
    "mns s' = mns s" "solarElevation s' = solarElevation s"
    "drift s' = drift s" "eb s' = eb s" "da s' = da s" "pts s' = pts s"
    "worker_startx s' = worker_startx s" "worker_deltax s' = worker_deltax s"
    "dem s' = dem s" "dimx s' = dimx s" "dimy s' = dimy s"
    "glacier_katabatic_flow s' = glacier_katabatic_flow s" "mask_dynamic s' = mask_dynamic s"
proof -
  have "nextStepTimestamp (frame s') = nextStepTimestamp (frame s)"
    "timeStep (frame s') = timeStep (frame s)"
    "dataMeteo2D (frame s') = dataMeteo2D (frame s)"
    "dataRadiation (frame s') = dataRadiation (frame s)"
    "dataSnowDrift (frame s') = dataSnowDrift (frame s)" "dataDa (frame s') = dataDa (frame s)"
    "psum (frame s') = psum (frame s)" "psum_ph (frame s') = psum_ph (frame s)"
    "vw (frame s') = vw (frame s)" "rh (frame s') = rh (frame s)" "ta (frame s') = ta (frame s)"
    "shortwave (frame s') = shortwave (frame s)" "longwave (frame s') = longwave (frame s)"
    "diffuse (frame s') = diffuse (frame s)" "mns (frame s') = mns (frame s)"
    "solarElevation (frame s') = solarElevation (frame s)"
    "drift (frame s') = drift (frame s)" "eb (frame s') = eb (frame s)"
    "da (frame s') = da (frame s)" "pts (frame s') = pts (frame s)"
    "worker_startx (frame s') = worker_startx (frame s)"
    "worker_deltax (frame s') = worker_deltax (frame s)"
    "dem (frame s') = dem (frame s)" "dimx (frame s') = dimx (frame s)"
    "dimy (frame s') = dimy (frame s)"
    "glacier_katabatic_flow (frame s') = glacier_katabatic_flow (frame s)"
    "mask_dynamic (frame s') = mask_dynamic (frame s)"
    using assms by simp_all
  then show "nextStepTimestamp s' = nextStepTimestamp s" "timeStep s' = timeStep s"
    "dataMeteo2D s' = dataMeteo2D s" "dataRadiation s' = dataRadiation s"
    "dataSnowDrift s' = dataSnowDrift s" "dataDa s' = dataDa s"
    "psum s' = psum s" "psum_ph s' = psum_ph s" "vw s' = vw s" "rh s' = rh s" "ta s' = ta s"
    "shortwave s' = shortwave s" "longwave s' = longwave s" "diffuse s' = diffuse s"
    "mns s' = mns s" "solarElevation s' = solarElevation s"
    "drift s' = drift s" "eb s' = eb s" "da s' = da s" "pts s' = pts s"
    "worker_startx s' = worker_startx s" "worker_deltax s' = worker_deltax s"
    "dem s' = dem s" "dimx s' = dimx s" "dimy s' = dimy s"
    "glacier_katabatic_flow s' = glacier_katabatic_flow s" "mask_dynamic s' = mask_dynamic s"
    by (simp_all add: frame_def)
qed

text \<open>What a step does to the coordinator, whatever its outcome.\<close>

lemma run_step_props:
  "\<exists>s'. frame s' = frame s \<and> steps_started s' = Suc (steps_started s)
     \<and> (fst (run_step e s) \<noteq> Returned \<and> snd (run_step e s) = s'
        \<or> fst (run_step e s) = Returned
           \<and> snd (run_step e s) = s'\<lparr>nextStepTimestamp := nextStepTimestamp s + timeStep s\<rparr>)"
proof -
  let ?s1 = "after_workers e s"
  obtain o2 s2 where w: "(if pts s \<noteq> [] then write_special_points e ?s1 else (Returned, ?s1)) = (o2, s2)"
    by (cases "if pts s \<noteq> [] then write_special_points e ?s1 else (Returned, ?s1)") auto
  have q12: "quiet ?s1 s2" "o2 \<noteq> Aborted"
    using w write_special_points_props [of ?s1 e] by (auto split: if_splits)
  have f2: "frame s2 = frame s" "steps_started s2 = Suc (steps_started s)"
    using q12 quiet_frame quiet_steps_started after_workers_frame after_workers_steps by metis+
  show ?thesis
  proof (cases "o2 = Returned \<and> failed_workers e s (length (workers s)) = []")
    case True
    obtain s' where s': "quiet s2 s'"
      "finish_step e s2 = s'\<lparr>nextStepTimestamp := nextStepTimestamp s' + timeStep s'\<rparr>"
      using finish_step_props by blast
    have f': "frame s' = frame s" "steps_started s' = Suc (steps_started s)"
      using s'(1) f2 quiet_frame quiet_steps_started by metis+
    have "run_step e s = (Returned, s'\<lparr>nextStepTimestamp := nextStepTimestamp s + timeStep s\<rparr>)"
      using True s'(2) frame_fields(1,2) [OF f'(1)] by (simp add: run_step_eq w)
    with f' show ?thesis by auto
  next
    case False
    then have "fst (run_step e s) \<noteq> Returned \<and> snd (run_step e s) = s2"
      using q12(2) by (cases o2) (auto simp: run_step_eq w)
    with f2 show ?thesis by blast
  qed
qed

lemma calcNextStep_ready: "ready s \<Longrightarrow> calcNextStep e s = run_step e (cleared s)"
  by (auto simp: ready_def calcNextStep_def cleared_def)

lemma calcNextStep_waiting:
  "\<not> dataMeteo2D s \<or> drift s \<and> \<not> dataSnowDrift s \<or> da s \<and> \<not> dataDa s
     \<or> eb s \<and> \<not> dataRadiation s
   \<Longrightarrow> calcNextStep e s = (Returned, s)"
  by (auto simp: calcNextStep_def)

lemma calcNextStep_cases:
  "calcNextStep e s = (Returned, s)
   \<or> calcNextStep e s = (Thrown (NoDataException ''Radiation data not available''), s)
   \<or> ready s \<and> calcNextStep e s = run_step e (cleared s)"
  by (auto simp: ready_def calcNextStep_def cleared_def)

lemma frame_cleared:
  "frame (cleared s) = cleared (frame s)"
  by (simp add: frame_def cleared_def)

lemma cleared_fields [simp]:
  "forcing (cleared s) = forcing s" "nextStepTimestamp (cleared s) = nextStepTimestamp s"
  "timeStep (cleared s) = timeStep s" "steps_started (cleared s) = steps_started s"
  "readiness (cleared s) = (False, False, False, False)" "workers (cleared s) = workers s"
  "pts (cleared s) = pts s"
  by (simp_all add: cleared_def forcing_def steps_started_def readiness_def)

lemma frame_forcing: "frame s' = frame s \<Longrightarrow> forcing s' = forcing s"
  using frame_fields [of s' s] by (simp add: forcing_def)

lemma frame_readiness: "frame s' = frame s \<Longrightarrow> readiness s' = readiness s"
  using frame_fields [of s' s] by (simp add: readiness_def)

lemma run_step_summary:
  "forcing (snd (run_step e s)) = forcing s
   \<and> readiness (snd (run_step e s)) = readiness s
   \<and> steps_started (snd (run_step e s)) = Suc (steps_started s)
   \<and> nextStepTimestamp (snd (run_step e s))
       = (if fst (run_step e s) = Returned then nextStepTimestamp s + timeStep s
          else nextStepTimestamp s)"
proof -
  obtain s' where s': "frame s' = frame s" "steps_started s' = Suc (steps_started s)"
    "fst (run_step e s) \<noteq> Returned \<and> snd (run_step e s) = s'
        \<or> fst (run_step e s) = Returned
           \<and> snd (run_step e s) = s'\<lparr>nextStepTimestamp := nextStepTimestamp s + timeStep s\<rparr>"
    using run_step_props [of s e] by blast
  have a: "forcing s' = forcing s" "readiness s' = readiness s"
    "nextStepTimestamp s' = nextStepTimestamp s"
    using s'(1) frame_forcing frame_readiness frame_fields(1) by blast+
  have b: "forcing (s'\<lparr>nextStepTimestamp := x\<rparr>) = forcing s'"
    "readiness (s'\<lparr>nextStepTimestamp := x\<rparr>) = readiness s'"
    "steps_started (s'\<lparr>nextStepTimestamp := x\<rparr>) = steps_started s'" for x
    by (simp_all add: forcing_def readiness_def steps_started_def)
  show ?thesis
    using s'(2,3) a b by auto
qed

lemma calcNextStep_summary:
  "forcing (snd (calcNextStep e s)) = forcing s
   \<and> (if ready s
       then readiness (snd (calcNextStep e s)) = (False, False, False, False)
         \<and> steps_started (snd (calcNextStep e s)) = Suc (steps_started s)
         \<and> nextStepTimestamp (snd (calcNextStep e s))
             = (if fst (calcNextStep e s) = Returned then nextStepTimestamp s + timeStep s
                else nextStepTimestamp s)
       else snd (calcNextStep e s) = s)"
proof (cases "ready s")
  case True
  then show ?thesis
    using run_step_summary [of e "cleared s"] by (simp add: calcNextStep_ready)
next
  case False
  then have "snd (calcNextStep e s) = s"
    using calcNextStep_cases [of e s] by auto
  with False show ?thesis by simp
qed

section \<open>Properties of the setters\<close>

lemma getGrid_snd_fields [simp]:
  "psum (snd (getGrid e s param)) = psum s" "psum_ph (snd (getGrid e s param)) = psum_ph s"
  "vw (snd (getGrid e s param)) = vw s" "rh (snd (getGrid e s param)) = rh s"
  "ta (snd (getGrid e s param)) = ta s" "shortwave (snd (getGrid e s param)) = shortwave s"
  "longwave (snd (getGrid e s param)) = longwave s" "diffuse (snd (getGrid e s param)) = diffuse s"
  "mns (snd (getGrid e s param)) = mns s"
  "solarElevation (snd (getGrid e s param)) = solarElevation s"
  "dataMeteo2D (snd (getGrid e s param)) = dataMeteo2D s"
  "dataRadiation (snd (getGrid e s param)) = dataRadiation s"
  "dataSnowDrift (snd (getGrid e s param)) = dataSnowDrift s"
  "dataDa (snd (getGrid e s param)) = dataDa s"
  "drift (snd (getGrid e s param)) = drift s" "eb (snd (getGrid e s param)) = eb s"
  "da (snd (getGrid e s param)) = da s"
  "nextStepTimestamp (snd (getGrid e s param)) = nextStepTimestamp s"
  "timeStep (snd (getGrid e s param)) = timeStep s"
  "glacier_katabatic_flow (snd (getGrid e s param)) = glacier_katabatic_flow s"
  "mask_dynamic (snd (getGrid e s param)) = mask_dynamic s"
  "maskGlacier (snd (getGrid e s param)) = maskGlacier s"
  "glaciers (snd (getGrid e s param)) = glaciers s"
  using getGrid_state [of e s param] by (auto simp: emit_def)

lemma steps_started_update [simp]:
  "steps_started (s\<lparr>ta := g\<rparr>) = steps_started s"
  "steps_started (s\<lparr>glaciers := g\<rparr>) = steps_started s"
  "steps_started (s\<lparr>maskGlacier := g\<rparr>) = steps_started s"
  "steps_started (s\<lparr>psum := g\<rparr>) = steps_started s"
  "steps_started (s\<lparr>psum_ph := g\<rparr>) = steps_started s"
  "steps_started (s\<lparr>vw := g\<rparr>) = steps_started s"
  "steps_started (s\<lparr>rh := g\<rparr>) = steps_started s"
  "steps_started (s\<lparr>mns := g\<rparr>) = steps_started s"
  "steps_started (s\<lparr>shortwave := g\<rparr>) = steps_started s"
  "steps_started (s\<lparr>longwave := g\<rparr>) = steps_started s"
  "steps_started (s\<lparr>diffuse := g\<rparr>) = steps_started s"
  "steps_started (s\<lparr>solarElevation := x\<rparr>) = steps_started s"
  "steps_started (s\<lparr>dataMeteo2D := b\<rparr>) = steps_started s"
  "steps_started (s\<lparr>dataRadiation := b\<rparr>) = steps_started s"
  "steps_started (s\<lparr>dataSnowDrift := b\<rparr>) = steps_started s"
  "steps_started (s\<lparr>dataDa := b\<rparr>) = steps_started s"
  by (simp_all add: steps_started_def)

lemma store_ta_fields [simp]:
  "psum (store_ta e s t) = psum s" "psum_ph (store_ta e s t) = psum_ph s"
  "vw (store_ta e s t) = vw s" "rh (store_ta e s t) = rh s"
  "shortwave (store_ta e s t) = shortwave s"
  "longwave (store_ta e s t) = longwave s" "diffuse (store_ta e s t) = diffuse s"
  "mns (store_ta e s t) = mns s"
  "solarElevation (store_ta e s t) = solarElevation s"
  "dataMeteo2D (store_ta e s t) = dataMeteo2D s"
  "dataRadiation (store_ta e s t) = dataRadiation s"
  "dataSnowDrift (store_ta e s t) = dataSnowDrift s"
  "dataDa (store_ta e s t) = dataDa s"
  "drift (store_ta e s t) = drift s" "eb (store_ta e s t) = eb s"
  "da (store_ta e s t) = da s"
  "nextStepTimestamp (store_ta e s t) = nextStepTimestamp s"
  "timeStep (store_ta e s t) = timeStep s"
  "workers (store_ta e s t) = workers s"
  "steps_started (store_ta e s t) = steps_started s"
  "\<not> glacier_katabatic_flow s \<Longrightarrow> ta (store_ta e s t) = t"
  by (simp_all add: store_ta_def Let_def case_prod_beta)

lemma store_meteo_fields [simp]:
  "psum (store_meteo e s p pp v r t) = p" "psum_ph (store_meteo e s p pp v r t) = pp"
  "vw (store_meteo e s p pp v r t) = v" "rh (store_meteo e s p pp v r t) = r"
  "\<not> glacier_katabatic_flow s \<Longrightarrow> ta (store_meteo e s p pp v r t) = t"
  "shortwave (store_meteo e s p pp v r t) = shortwave s"
  "longwave (store_meteo e s p pp v r t) = longwave s"
  "diffuse (store_meteo e s p pp v r t) = diffuse s"
  "mns (store_meteo e s p pp v r t) = mns s"
  "solarElevation (store_meteo e s p pp v r t) = solarElevation s"
  "dataMeteo2D (store_meteo e s p pp v r t) = True"
  "dataRadiation (store_meteo e s p pp v r t) = dataRadiation s"
  "dataSnowDrift (store_meteo e s p pp v r t) = dataSnowDrift s"
  "dataDa (store_meteo e s p pp v r t) = dataDa s"
  "drift (store_meteo e s p pp v r t) = drift s" "eb (store_meteo e s p pp v r t) = eb s"
  "da (store_meteo e s p pp v r t) = da s"
  "nextStepTimestamp (store_meteo e s p pp v r t) = nextStepTimestamp s"
  "timeStep (store_meteo e s p pp v r t) = timeStep s"
  "workers (store_meteo e s p pp v r t) = workers s"
  "steps_started (store_meteo e s p pp v r t) = steps_started s"
  by (simp_all add: store_meteo_def Let_def case_prod_beta)

lemma store_ta_katabatic:
  "glacier_katabatic_flow s \<Longrightarrow>
     \<exists>glacier_map cH tss. ta (store_ta e s t) = correctTemperatures e glacier_map cH tss t"
  by (simp add: store_ta_def Let_def case_prod_beta) blast

lemma store_meteo_katabatic:
  "glacier_katabatic_flow s \<Longrightarrow>
     \<exists>glacier_map cH tss.
       ta (store_meteo e s p pp v r t) = correctTemperatures e glacier_map cH tss t"
proof -
  assume k: "glacier_katabatic_flow s"
  let ?s1 = "s\<lparr>psum := p, psum_ph := pp, vw := v, rh := r\<rparr>"
  let ?s2 = "if mask_dynamic ?s1
             then (case getGrid e ?s1 GLACIER of (g, s') \<Rightarrow> s'\<lparr>maskGlacier := g\<rparr>)
             else ?s1"
  have "glacier_katabatic_flow ?s2" using k by (simp add: case_prod_beta)
  then have "\<exists>glacier_map cH tss.
      ta (store_ta e ?s2 t) = correctTemperatures e glacier_map cH tss t"
    by (rule store_ta_katabatic)
  moreover have "ta (store_meteo e s p pp v r t) = ta (store_ta e ?s2 t)"
    by (simp add: store_meteo_def Let_def)
  ultimately show ?thesis by simp
qed

lemma store_radiation_fields [simp]:
  "psum (store_radiation s sw lw df se) = psum s"
  "psum_ph (store_radiation s sw lw df se) = psum_ph s"
  "vw (store_radiation s sw lw df se) = vw s" "rh (store_radiation s sw lw df se) = rh s"
  "ta (store_radiation s sw lw df se) = ta s" "mns (store_radiation s sw lw df se) = mns s"
  "grid2D (shortwave (store_radiation s sw lw df se)) = sw"
  "grid2D (longwave (store_radiation s sw lw df se)) = lw"
  "grid2D (diffuse (store_radiation s sw lw df se)) = df"
  "solarElevation (store_radiation s sw lw df se) = se"
  "dataMeteo2D (store_radiation s sw lw df se) = dataMeteo2D s"
  "dataRadiation (store_radiation s sw lw df se) = True"
  "dataSnowDrift (store_radiation s sw lw df se) = dataSnowDrift s"
  "dataDa (store_radiation s sw lw df se) = dataDa s"
  "drift (store_radiation s sw lw df se) = drift s" "eb (store_radiation s sw lw df se) = eb s"
  "da (store_radiation s sw lw df se) = da s"
  "nextStepTimestamp (store_radiation s sw lw df se) = nextStepTimestamp s"
  "timeStep (store_radiation s sw lw df se) = timeStep s"
  "workers (store_radiation s sw lw df se) = workers s"
  "steps_started (store_radiation s sw lw df se) = steps_started s"
  by (simp_all add: store_radiation_def steps_started_def)


lemma rejected_same: "rejected s msg (Thrown (InvalidArgumentException msg), s)"
  by (simp add: rejected_def)

lemma rejected_emit:
  "TimerRestart \<notin> set es \<Longrightarrow> rejected s msg (Thrown (InvalidArgumentException msg), emit es s)"
  by (simp add: rejected_def readiness_def forcing_def emit_def steps_started_def)

lemma forcing_fields:
  "forcing s' = forcing s \<Longrightarrow>
     psum s' = psum s \<and> psum_ph s' = psum_ph s \<and> vw s' = vw s \<and> rh s' = rh s \<and> ta s' = ta s
     \<and> shortwave s' = shortwave s \<and> longwave s' = longwave s"
  by (simp add: forcing_def)

text \<open>
  Claim C2. Called with a timestamp other than the one the coordinator expects, each of
  \<^verbatim>\<open>setMeteo\<close>, \<^verbatim>\<open>setRadiationComponents\<close>, \<^verbatim>\<open>setSnowMassChange\<close> and \<^verbatim>\<open>assimilate\<close>
  throws its invalid-argument exception about the time steps; the four readiness flags,
  the stored grids and the expected timestamp are what they were, no step has begun, and
  nothing but the printed message distinguishes the coordinator from the one before the
  call.
\<close>

theorem timing_mismatch:
  assumes "timestamp \<noteq> nextStepTimestamp s"
  shows "rejected s ''Meteo and snowpack time steps don't match''
           (setMeteo e s new_psum new_psum_ph new_vw new_rh new_ta timestamp)
    \<and> rejected s ''Radiation and snowpack time steps don't match''
           (setRadiationComponents e s shortwave_in longwave_in diff_in elevation timestamp)
    \<and> rejected s ''Snowdrift and snowpack steps don't match''
           (setSnowMassChange e s new_mns timestamp)
    \<and> rejected s ''Assimilation and snowpack time steps don't match''
           (assimilate e s daData timestamp)"
  using assms
  by (auto simp: setMeteo_def setRadiationComponents_def setSnowMassChange_def assimilate_def
      rejected_same rejected_emit)

theorem timing_mismatch_witness:
  "99 \<noteq> nextStepTimestamp ex_state
   \<and> rejected ex_state ''Meteo and snowpack time steps don't match''
         (setMeteo ex_env ex_state (const_grid 8 2 1) (const_grid 8 2 2) (const_grid 8 2 3)
            (const_grid 8 2 4) (const_grid 8 2 5) 99)
   \<and> fst (setRadiationComponents ex_env ex_state small_array small_array small_array 0 99)
       = Thrown (InvalidArgumentException ''Radiation and snowpack time steps don't match'')
   \<and> readiness (snd (setSnowMassChange ex_env ex_state (const_grid 8 2 1) 99))
       = (False, False, False, False)
   \<and> steps_started (snd (assimilate ex_env ex_state (const_grid 8 2 1) 99)) = 0"
proof -
  have h: "99 \<noteq> nextStepTimestamp ex_state" by (simp add: ex_state_def)
  have z: "readiness ex_state = (False, False, False, False)" "steps_started ex_state = 0"
    by (simp_all add: ex_state_def readiness_def steps_started_def)
  show ?thesis
    using h z
      timing_mismatch [OF h, of ex_env "const_grid 8 2 1" "const_grid 8 2 2" "const_grid 8 2 3"
        "const_grid 8 2 4" "const_grid 8 2 5" small_array small_array small_array 0
        "const_grid 8 2 1" "const_grid 8 2 1"]
    by (simp add: rejected_def)
qed

text \<open>
  Claim C3. When \<^verbatim>\<open>calcNextStep\<close> finds the fields of meteo delivered and the flag of
  every attached optional producer raised, but no radiation, it throws the no-data
  exception and leaves the coordinator as it is: no step runs. This happens only
  without the energy-balance module.
\<close>

theorem radiation_mandatory:
  assumes "dataMeteo2D s" "drift s \<longrightarrow> dataSnowDrift s" "da s \<longrightarrow> dataDa s"
    "eb s \<longrightarrow> dataRadiation s" "\<not> dataRadiation s"
  shows "calcNextStep e s = (Thrown (NoDataException ''Radiation data not available''), s)
    \<and> \<not> eb s"
  using assms by (auto simp: calcNextStep_def)

theorem radiation_mandatory_witness:
  "dataMeteo2D ex_no_eb \<and> \<not> dataRadiation ex_no_eb \<and> \<not> eb ex_no_eb
   \<and> calcNextStep ex_env ex_no_eb
       = (Thrown (NoDataException ''Radiation data not available''), ex_no_eb)"
proof -
  have h: "dataMeteo2D ex_no_eb" "drift ex_no_eb \<longrightarrow> dataSnowDrift ex_no_eb"
    "da ex_no_eb \<longrightarrow> dataDa ex_no_eb" "eb ex_no_eb \<longrightarrow> dataRadiation ex_no_eb"
    "\<not> dataRadiation ex_no_eb"
    by (simp_all add: ex_no_eb_def ex_state_def)
  show ?thesis
    using h(1,5) radiation_mandatory [OF h, of ex_env] by simp
qed

text \<open>
  Claim C9, as the code has it. \<^verbatim>\<open>setSnowMassChange\<close> compares the grid it receives with
  the DEM: called with the expected timestamp and a grid whose dimensions, origin,
  projection or cell size differ from those of the DEM, it throws the
  index-out-of-bounds exception and leaves the coordinator as it is, so that nothing is
  stored. \<^verbatim>\<open>setRadiationComponents\<close> receives bare arrays, without a geolocation, and
  stores them as they are, whatever their dimensions, and \<^verbatim>\<open>assimilate\<close> stores nothing
  of its grid. The example after the theorem shows arrays of one cell on a domain of
  eight by two: the call returns and the arrays are stored.
\<close>

theorem snow_mass_geolocation:
  assumes "timestamp = nextStepTimestamp s"
    and "nx (grid2D new_mns) \<noteq> nx (grid2D (dem s)) \<or> ny (grid2D new_mns) \<noteq> ny (grid2D (dem s))
         \<or> easting (llcorner new_mns) \<noteq> easting (llcorner (dem s))
         \<or> northing (llcorner new_mns) \<noteq> northing (llcorner (dem s))
         \<or> coordsystem (llcorner new_mns) \<noteq> coordsystem (llcorner (dem s))
         \<or> cellsize new_mns \<noteq> cellsize (dem s)"
  shows "setSnowMassChange e s new_mns timestamp =
           (Thrown (IndexOutOfBoundsException (nx (grid2D new_mns)) (ny (grid2D new_mns))
                      (nx (grid2D (dem s))) (ny (grid2D (dem s)))), s)
    \<and> grid2D (shortwave (snd (setRadiationComponents e s shortwave_in longwave_in diff_in
                                 elevation timestamp))) = shortwave_in
    \<and> grid2D (longwave (snd (setRadiationComponents e s shortwave_in longwave_in diff_in
                                elevation timestamp))) = longwave_in
    \<and> grid2D (diffuse (snd (setRadiationComponents e s shortwave_in longwave_in diff_in
                               elevation timestamp))) = diff_in
    \<and> forcing (snd (assimilate e s daData timestamp)) = forcing s"
proof -
  let ?r = "store_radiation s shortwave_in longwave_in diff_in elevation"
  let ?a = "(emit [UpdatingStateVariables] s)\<lparr>dataDa := True\<rparr>"
  have "forcing (snd (calcNextStep e ?r)) = forcing ?r"
    using calcNextStep_summary by blast
  then have r: "shortwave (snd (calcNextStep e ?r)) = shortwave ?r"
    "longwave (snd (calcNextStep e ?r)) = longwave ?r"
    "diffuse (snd (calcNextStep e ?r)) = diffuse ?r"
    by (simp_all add: forcing_def)
  have "forcing (snd (calcNextStep e ?a)) = forcing ?a"
    using calcNextStep_summary by blast
  moreover have "forcing ?a = forcing s" by (simp add: forcing_def emit_def)
  ultimately have a: "forcing (snd (assimilate e s daData timestamp)) = forcing s"
    using assms(1) by (simp add: assimilate_def)
  have m: "setSnowMassChange e s new_mns timestamp =
           (Thrown (IndexOutOfBoundsException (nx (grid2D new_mns)) (ny (grid2D new_mns))
                      (nx (grid2D (dem s))) (ny (grid2D (dem s)))), s)"
    using assms by (auto simp: setSnowMassChange_def isSameGeolocalization_def)
  show ?thesis
    using m r a assms(1) by (simp add: setRadiationComponents_def)
qed

theorem snow_mass_geolocation_witness:
  "nx (grid2D (const_grid 4 2 0)) \<noteq> nx (grid2D (dem ex_state))
   \<and> setSnowMassChange ex_env ex_state (const_grid 4 2 0) 100
       = (Thrown (IndexOutOfBoundsException 4 2 8 2), ex_state)"
proof -
  have h: "100 = nextStepTimestamp ex_state"
    "nx (grid2D (const_grid 4 2 0)) \<noteq> nx (grid2D (dem ex_state))"
    by (simp_all add: ex_state_def const_grid_def)
  have d: "nx (grid2D (const_grid 4 2 0)) = 4" "ny (grid2D (const_grid 4 2 0)) = 2"
    "nx (grid2D (dem ex_state)) = 8" "ny (grid2D (dem ex_state)) = 2"
    by (simp_all add: ex_state_def const_grid_def)
  have h': "nx (grid2D (const_grid 4 2 0)) \<noteq> nx (grid2D (dem ex_state))
      \<or> ny (grid2D (const_grid 4 2 0)) \<noteq> ny (grid2D (dem ex_state))
      \<or> easting (llcorner (const_grid 4 2 0)) \<noteq> easting (llcorner (dem ex_state))
      \<or> northing (llcorner (const_grid 4 2 0)) \<noteq> northing (llcorner (dem ex_state))
      \<or> coordsystem (llcorner (const_grid 4 2 0)) \<noteq> coordsystem (llcorner (dem ex_state))
      \<or> cellsize (const_grid 4 2 0) \<noteq> cellsize (dem ex_state)"
    using h(2) by simp
  show ?thesis
    using h(2) snow_mass_geolocation [OF h(1) h', of ex_env] d by simp
qed

theorem radiation_unvalidated_counterexample:
  "nx small_array \<noteq> nx (grid2D (dem ex_state))
   \<and> setRadiationComponents ex_env ex_state small_array small_array small_array 0
        (nextStepTimestamp ex_state)
      = (Returned,
         ex_state\<lparr>shortwave := (shortwave ex_state)\<lparr>grid2D := small_array\<rparr>,
                   longwave := (longwave ex_state)\<lparr>grid2D := small_array\<rparr>,
                   diffuse := (diffuse ex_state)\<lparr>grid2D := small_array\<rparr>,
                   solarElevation := 0, dataRadiation := True\<rparr>)"
  by (simp add: setRadiationComponents_def store_radiation_def calcNextStep_def ex_state_def
      small_array_def const_grid_def)


text \<open>
  Claim C1. With the energy-balance module attached and no radiation delivered yet,
  \<^verbatim>\<open>setMeteo\<close> with the expected timestamp returns without a step: no step has begun, the
  clock and the workers are what they were, and only the flag of meteo has been raised.
  When \<^verbatim>\<open>setRadiationComponents\<close> follows with the same timestamp, and no other attached
  producer is still awaited, the call is the step, run on the coordinator with all four
  flags cleared: one step more has begun than before the two calls, and the flags are
  cleared afterwards. The same holds in the other order, the radiation first, when no
  fields of meteo were there before. For any coordinator, \<^verbatim>\<open>calcNextStep\<close> begins a step only when the
  fields of meteo and the radiation are there and every attached producer of snow drift
  and data assimilation has delivered.
\<close>

theorem step_gating:
  assumes "eb s" "\<not> dataRadiation s" "timestamp = nextStepTimestamp s"
  shows "let r1 = setMeteo e s new_psum new_psum_ph new_vw new_rh new_ta timestamp;
             s1 = snd r1;
             r2 = setRadiationComponents e s1 shortwave_in longwave_in diff_in elevation timestamp;
             r3 = setRadiationComponents e s shortwave_in longwave_in diff_in elevation timestamp;
             s3 = snd r3;
             r4 = setMeteo e s3 new_psum new_psum_ph new_vw new_rh new_ta timestamp
         in fst r1 = Returned \<and> steps_started s1 = steps_started s
            \<and> nextStepTimestamp s1 = nextStepTimestamp s \<and> workers s1 = workers s
            \<and> readiness s1 = (True, False, dataSnowDrift s, dataDa s)
            \<and> ((drift s \<longrightarrow> dataSnowDrift s) \<and> (da s \<longrightarrow> dataDa s) \<longrightarrow>
                 r2 = run_step e
                        (cleared (store_radiation s1 shortwave_in longwave_in diff_in elevation))
                 \<and> steps_started (snd r2) = Suc (steps_started s)
                 \<and> readiness (snd r2) = (False, False, False, False))
            \<and> (\<not> dataMeteo2D s \<longrightarrow>
                 fst r3 = Returned \<and> steps_started s3 = steps_started s
                 \<and> readiness s3 = (False, True, dataSnowDrift s, dataDa s)
                 \<and> ((drift s \<longrightarrow> dataSnowDrift s) \<and> (da s \<longrightarrow> dataDa s) \<longrightarrow>
                      r4 = run_step e
                             (cleared (store_meteo e s3 new_psum new_psum_ph new_vw new_rh new_ta))
                      \<and> steps_started (snd r4) = Suc (steps_started s)
                      \<and> readiness (snd r4) = (False, False, False, False)))
            \<and> (\<forall>s' :: ('w, 'p) SnowpackInterface.
                  steps_started (snd (calcNextStep e s')) \<noteq> steps_started s' \<longrightarrow> ready s')"
proof -
  let ?m = "store_meteo e s new_psum new_psum_ph new_vw new_rh new_ta"
  have r1: "setMeteo e s new_psum new_psum_ph new_vw new_rh new_ta timestamp = (Returned, ?m)"
    using assms by (simp add: setMeteo_def calcNextStep_waiting)
  have m: "steps_started ?m = steps_started s" "nextStepTimestamp ?m = nextStepTimestamp s"
    "workers ?m = workers s" "readiness ?m = (True, False, dataSnowDrift s, dataDa s)"
    using assms by (simp_all add: readiness_def)
  let ?r = "store_radiation ?m shortwave_in longwave_in diff_in elevation"
  have r2: "setRadiationComponents e ?m shortwave_in longwave_in diff_in elevation timestamp
      = calcNextStep e ?r"
    using assms by (simp add: setRadiationComponents_def)
  have rdy: "(drift s \<longrightarrow> dataSnowDrift s) \<and> (da s \<longrightarrow> dataDa s) \<Longrightarrow> ready ?r"
    by (simp add: ready_def)
  have step: "(drift s \<longrightarrow> dataSnowDrift s) \<and> (da s \<longrightarrow> dataDa s) \<Longrightarrow>
      calcNextStep e ?r = run_step e (cleared ?r)
      \<and> steps_started (snd (calcNextStep e ?r)) = Suc (steps_started s)
      \<and> readiness (snd (calcNextStep e ?r)) = (False, False, False, False)"
    using rdy calcNextStep_ready [of ?r e] calcNextStep_summary [of e ?r] by simp
  let ?q = "store_radiation s shortwave_in longwave_in diff_in elevation"
  have r3: "\<not> dataMeteo2D s \<Longrightarrow>
      setRadiationComponents e s shortwave_in longwave_in diff_in elevation timestamp
        = (Returned, ?q)"
    using assms by (simp add: setRadiationComponents_def calcNextStep_waiting)
  have q: "steps_started ?q = steps_started s"
    "\<not> dataMeteo2D s \<Longrightarrow> readiness ?q = (False, True, dataSnowDrift s, dataDa s)"
    by (simp_all add: readiness_def)
  let ?n = "store_meteo e ?q new_psum new_psum_ph new_vw new_rh new_ta"
  have r4: "setMeteo e ?q new_psum new_psum_ph new_vw new_rh new_ta timestamp = calcNextStep e ?n"
    using assms by (simp add: setMeteo_def)
  have rdy': "(drift s \<longrightarrow> dataSnowDrift s) \<and> (da s \<longrightarrow> dataDa s) \<Longrightarrow> ready ?n"
    by (simp add: ready_def)
  have step': "(drift s \<longrightarrow> dataSnowDrift s) \<and> (da s \<longrightarrow> dataDa s) \<Longrightarrow>
      calcNextStep e ?n = run_step e (cleared ?n)
      \<and> steps_started (snd (calcNextStep e ?n)) = Suc (steps_started s)
      \<and> readiness (snd (calcNextStep e ?n)) = (False, False, False, False)"
    using rdy' calcNextStep_ready [of ?n e] calcNextStep_summary [of e ?n] by simp
  have rev: "\<not> dataMeteo2D s \<Longrightarrow>
      fst (setRadiationComponents e s shortwave_in longwave_in diff_in elevation timestamp)
        = Returned
      \<and> steps_started
          (snd (setRadiationComponents e s shortwave_in longwave_in diff_in elevation timestamp))
          = steps_started s
      \<and> readiness
          (snd (setRadiationComponents e s shortwave_in longwave_in diff_in elevation timestamp))
          = (False, True, dataSnowDrift s, dataDa s)
      \<and> ((drift s \<longrightarrow> dataSnowDrift s) \<and> (da s \<longrightarrow> dataDa s) \<longrightarrow>
           setMeteo e
             (snd (setRadiationComponents e s shortwave_in longwave_in diff_in elevation
                     timestamp))
             new_psum new_psum_ph new_vw new_rh new_ta timestamp
             = run_step e
                 (cleared
                    (store_meteo e
                       (snd (setRadiationComponents e s shortwave_in longwave_in diff_in
                               elevation timestamp))
                       new_psum new_psum_ph new_vw new_rh new_ta))
           \<and> steps_started
               (snd (setMeteo e
                       (snd (setRadiationComponents e s shortwave_in longwave_in diff_in
                               elevation timestamp))
                       new_psum new_psum_ph new_vw new_rh new_ta timestamp))
               = Suc (steps_started s)
           \<and> readiness
               (snd (setMeteo e
                       (snd (setRadiationComponents e s shortwave_in longwave_in diff_in
                               elevation timestamp))
                       new_psum new_psum_ph new_vw new_rh new_ta timestamp))
               = (False, False, False, False))"
  proof -
    assume a: "\<not> dataMeteo2D s"
    show ?thesis
      unfolding r3 [OF a] fst_conv snd_conv r4 using q(1) q(2) [OF a] step' by blast
  qed
  have gen: "\<And>s' :: ('w, 'p) SnowpackInterface.
      steps_started (snd (calcNextStep e s')) \<noteq> steps_started s' \<Longrightarrow> ready s'"
    using calcNextStep_summary by metis
  have fwd: "fst (setMeteo e s new_psum new_psum_ph new_vw new_rh new_ta timestamp) = Returned
      \<and> steps_started (snd (setMeteo e s new_psum new_psum_ph new_vw new_rh new_ta timestamp))
          = steps_started s
      \<and> nextStepTimestamp (snd (setMeteo e s new_psum new_psum_ph new_vw new_rh new_ta timestamp))
          = nextStepTimestamp s
      \<and> workers (snd (setMeteo e s new_psum new_psum_ph new_vw new_rh new_ta timestamp))
          = workers s
      \<and> readiness (snd (setMeteo e s new_psum new_psum_ph new_vw new_rh new_ta timestamp))
          = (True, False, dataSnowDrift s, dataDa s)
      \<and> ((drift s \<longrightarrow> dataSnowDrift s) \<and> (da s \<longrightarrow> dataDa s) \<longrightarrow>
           setRadiationComponents e
             (snd (setMeteo e s new_psum new_psum_ph new_vw new_rh new_ta timestamp))
             shortwave_in longwave_in diff_in elevation timestamp
             = run_step e
                 (cleared
                    (store_radiation
                       (snd (setMeteo e s new_psum new_psum_ph new_vw new_rh new_ta timestamp))
                       shortwave_in longwave_in diff_in elevation))
           \<and> steps_started
               (snd (setRadiationComponents e
                       (snd (setMeteo e s new_psum new_psum_ph new_vw new_rh new_ta timestamp))
                       shortwave_in longwave_in diff_in elevation timestamp))
               = Suc (steps_started s)
           \<and> readiness
               (snd (setRadiationComponents e
                       (snd (setMeteo e s new_psum new_psum_ph new_vw new_rh new_ta timestamp))
                       shortwave_in longwave_in diff_in elevation timestamp))
               = (False, False, False, False))"
    unfolding r1 snd_conv fst_conv r2 using m step by blast
  show ?thesis
    unfolding Let_def using fwd rev gen by blast
qed

theorem step_gating_witness:
  "eb ex_state \<and> \<not> dataRadiation ex_state
   \<and> fst (setMeteo ex_env ex_state (const_grid 8 2 1) (const_grid 8 2 2) (const_grid 8 2 3)
            (const_grid 8 2 4) (const_grid 8 2 5) 100) = Returned
   \<and> steps_started
        (snd (setMeteo ex_env ex_state (const_grid 8 2 1) (const_grid 8 2 2) (const_grid 8 2 3)
                (const_grid 8 2 4) (const_grid 8 2 5) 100)) = 0
   \<and> steps_started
        (snd (setRadiationComponents ex_env
                (snd (setMeteo ex_env ex_state (const_grid 8 2 1) (const_grid 8 2 2)
                        (const_grid 8 2 3) (const_grid 8 2 4) (const_grid 8 2 5) 100))
                small_array small_array small_array 30 100)) = Suc 0
   \<and> readiness
        (snd (setRadiationComponents ex_env
                (snd (setMeteo ex_env ex_state (const_grid 8 2 1) (const_grid 8 2 2)
                        (const_grid 8 2 3) (const_grid 8 2 4) (const_grid 8 2 5) 100))
                small_array small_array small_array 30 100)) = (False, False, False, False)"
proof -
  have h: "eb ex_state" "\<not> dataRadiation ex_state" "100 = nextStepTimestamp ex_state"
    by (simp_all add: ex_state_def)
  have d: "\<not> drift ex_state" "\<not> da ex_state" "steps_started ex_state = 0"
    by (simp_all add: ex_state_def steps_started_def)
  show ?thesis
    using h(1,2) d(1,2)
      step_gating [OF h, of ex_env "const_grid 8 2 1" "const_grid 8 2 2" "const_grid 8 2 3"
        "const_grid 8 2 4" "const_grid 8 2 5" small_array small_array small_array 30]
    unfolding Let_def d(3) by blast
qed

text \<open>
  Claim C7, as the code has it. After \<^verbatim>\<open>setMeteo\<close> with the expected timestamp,
  \<^verbatim>\<open>getGrid\<close> returns for \<open>PSUM\<close>, \<open>PSUM_PH\<close>, \<open>VW\<close> and \<open>RH\<close> the very grid that was
  passed, and for \<open>TA\<close> as well when the katabatic flow over glaciers is switched
  off; after \<^verbatim>\<open>setRadiationComponents\<close> the grids returned for \<open>ISWR\<close> and \<open>ILWR\<close> hold
  the arrays that were passed. This is so whether the setter returned, threw or
  aborted in the step it may have started. The answer comes from the coordinator alone:
  it is the same under any environment \<open>e'\<close>, whatever its workers would say, and the
  query changes nothing. With the katabatic flow switched on, \<^verbatim>\<open>setMeteo\<close> stores the air
  temperature that the glacier module returns for the grid passed, and the example
  after the theorem shows a grid of 270 that does not come back.
\<close>

theorem forcing_round_trip:
  assumes "timestamp = nextStepTimestamp s"
  shows "let s1 = snd (setMeteo e s new_psum new_psum_ph new_vw new_rh new_ta timestamp);
             s2 = snd (setRadiationComponents e s shortwave_in longwave_in diff_in elevation
                         timestamp)
         in getGrid e' s1 PSUM = (new_psum, s1) \<and> getGrid e' s1 PSUM_PH = (new_psum_ph, s1)
            \<and> getGrid e' s1 VW = (new_vw, s1) \<and> getGrid e' s1 RH = (new_rh, s1)
            \<and> (\<not> glacier_katabatic_flow s \<longrightarrow> getGrid e' s1 TA = (new_ta, s1))
            \<and> (glacier_katabatic_flow s \<longrightarrow>
                 (\<exists>glacier_map cH tss.
                    getGrid e' s1 TA = (correctTemperatures e glacier_map cH tss new_ta, s1)))
            \<and> grid2D (fst (getGrid e' s2 ISWR)) = shortwave_in
            \<and> grid2D (fst (getGrid e' s2 ILWR)) = longwave_in
            \<and> snd (getGrid e' s2 ISWR) = s2 \<and> snd (getGrid e' s2 ILWR) = s2"
proof -
  let ?m = "store_meteo e s new_psum new_psum_ph new_vw new_rh new_ta"
  let ?r = "store_radiation s shortwave_in longwave_in diff_in elevation"
  have r1: "setMeteo e s new_psum new_psum_ph new_vw new_rh new_ta timestamp = calcNextStep e ?m"
    using assms by (simp add: setMeteo_def)
  have r2: "setRadiationComponents e s shortwave_in longwave_in diff_in elevation timestamp
      = calcNextStep e ?r"
    using assms by (simp add: setRadiationComponents_def)
  have f1: "forcing (snd (calcNextStep e ?m)) = forcing ?m"
    and f2: "forcing (snd (calcNextStep e ?r)) = forcing ?r"
    using calcNextStep_summary by blast+
  note a = forcing_fields [OF f1] and b = forcing_fields [OF f2]
  have k: "glacier_katabatic_flow s \<Longrightarrow>
      \<exists>glacier_map cH tss. ta ?m = correctTemperatures e glacier_map cH tss new_ta"
    by (simp add: store_meteo_katabatic)
  show ?thesis
    unfolding Let_def r1 r2 using a b k by (simp add: getGrid_forcing)
qed

theorem forcing_round_trip_witness:
  "100 = nextStepTimestamp ex_state \<and> \<not> glacier_katabatic_flow ex_state
   \<and> fst (getGrid ex_env
            (snd (setMeteo ex_env ex_state (const_grid 8 2 1) (const_grid 8 2 2)
                    (const_grid 8 2 3) (const_grid 8 2 4) (const_grid 8 2 5) 100)) PSUM)
       = const_grid 8 2 1
   \<and> fst (getGrid ex_env
            (snd (setMeteo ex_env ex_state (const_grid 8 2 1) (const_grid 8 2 2)
                    (const_grid 8 2 3) (const_grid 8 2 4) (const_grid 8 2 5) 100)) TA)
       = const_grid 8 2 5
   \<and> grid2D (fst (getGrid ex_env
                     (snd (setRadiationComponents ex_env ex_state small_array small_array
                             small_array 30 100)) ISWR))
       = small_array"
proof -
  have h: "100 = nextStepTimestamp ex_state" "\<not> glacier_katabatic_flow ex_state"
    by (simp_all add: ex_state_def)
  show ?thesis
    using h
      forcing_round_trip [OF h(1), of ex_env "const_grid 8 2 1" "const_grid 8 2 2"
        "const_grid 8 2 3" "const_grid 8 2 4" "const_grid 8 2 5" small_array small_array
        small_array 30 ex_env]
    by (simp add: Let_def)
qed

theorem katabatic_temperature_counterexample:
  "fst (getGrid ex_env
          (snd (setMeteo ex_env ex_glacier (const_grid 8 2 0) (const_grid 8 2 0) (const_grid 8 2 0)
                  (const_grid 8 2 0) (const_grid 8 2 270) (nextStepTimestamp ex_glacier)))
          TA)
     \<noteq> const_grid 8 2 270"
  by (simp add: setMeteo_def store_meteo_def store_ta_def calcNextStep_def ex_glacier_def
      getGrid.simps getGrid_workers_def ex_defs getGrid_iter_def
      Grid2DObject_init_def fill_def fill_row_def set_cell_def get_cell_def empty_grid_def
      Let_def upt_rec numeral_nat)

section \<open>Failures of the model in a step\<close>











lemma workers_writeSnowCover [simp]: "workers (writeSnowCover s date ps) = workers s"
  by (simp add: writeSnowCover_def)





lemma workers_clearSpecialPointsData [simp]:
  "workers (clearSpecialPointsData e s) = map (worker_clearSpecialPointsData e) (workers s)"
  "trace (clearSpecialPointsData e s) = trace s"
  by (simp_all add: clearSpecialPointsData_def)













lemma after_workers_fields [simp]:
  "workers (after_workers e s) = map (\<lambda>ii. fst (runModel_call e s ii)) [0 ..< length (workers s)]"
  "trace (after_workers e s) = trace s @ TimerRestart # model_messages e s (length (workers s))"
  "nextStepTimestamp (after_workers e s) = nextStepTimestamp s"
  "pts (after_workers e s) = pts s" "do_io_locally (after_workers e s) = do_io_locally s"
  "meteo_outpath (after_workers e s) = meteo_outpath s"
  by (simp_all add: after_workers_def)

lemma do_io_locally_fields: "do_io_locally (after_workers e (cleared s)) = do_io_locally s"
  by (simp add: after_workers_def cleared_def)

lemma cleared_call [simp]: "runModel_call e (cleared s) ii = runModel_call e s ii"
  by (simp add: runModel_call_def worker_slices_def cleared_def)

lemma cleared_more [simp]:
  "failed_workers e (cleared s) n = failed_workers e s n"
  "model_messages e (cleared s) n = model_messages e s n"
  "trace (cleared s) = trace s" "do_io_locally (cleared s) = do_io_locally s"
  "meteo_outpath (cleared s) = meteo_outpath s"
  by (simp_all add: failed_workers_def model_messages_def) (simp_all add: cleared_def)




lemma local_points_after_workers:
  "local_points e (after_workers e s)
     = concat (map (\<lambda>ii. worker_getOutputSpecialPoints e (fst (runModel_call e s ii)))
         [0 ..< length (workers s)])"
  by (simp add: local_points_def comp_def)

















end
